theory Spec2Isabelle
  imports Complex_Main "HOL-Library.Product_Lexorder" "HOL-Library.Multiset"
    "HOL-Library.Log_Nat"
begin

section \<open>JavaScript values used by the form builder\<close>

text \<open>
  The form builder (\<^verbatim>\<open>NewEForm.tsx\<close>, class \<^verbatim>\<open>NewForm\<close>) keeps every text box as a
  string and converts with \<^verbatim>\<open>Number(...)\<close> where it needs a number. Strings are lists
  of characters; numbers are the values a JavaScript \<^verbatim>\<open>number\<close> can take: \<^verbatim>\<open>NaN\<close>, the
  two infinities, and the finite binary64 values, each written as the rational it
  denotes. Every operation that produces a number rounds to binary64 (\<open>to_binary64\<close>).
  The distinction between \<^verbatim>\<open>+0\<close> and \<^verbatim>\<open>-0\<close> is not modelled.
\<close>

datatype jsnum = NaN | Num rat | PInf | NInf

subsection \<open>Rounding to binary64\<close>

text \<open>
  The Number value for a rational \<open>x\<close>: the binary64 value nearest to \<open>x\<close>, the one with
  the even significand when two are equally near, and an infinity when the nearest would
  be \<open>2^1024\<close>. Every finite binary64 value is a multiple of the least positive one,
  \<open>2^-1074\<close>, so magnitudes are counted in that unit: with \<open>k\<close> the number of bits of the
  count beyond 53 (none for a subnormal), the significand is the count over \<open>2^k\<close>,
  rounded to an integer.
\<close>

definition binary64_scale :: rat where
  "binary64_scale = 2 ^ 1074"

definition binary64_limit :: rat where
  "binary64_limit = 2 ^ 1024"

definition round_half_even :: "rat \<Rightarrow> int" where
  "round_half_even x =
     (let f = \<lfloor>x\<rfloor>; d = x - of_int f in
      if d < 1 / 2 then f else if 1 / 2 < d then f + 1 else if even f then f else f + 1)"

definition to_binary64 :: "rat \<Rightarrow> jsnum" where
  "to_binary64 x =
     (let y = \<bar>x\<bar> * binary64_scale;
          k = floorlog 2 (nat \<lfloor>y\<rfloor>) - 53;
          m = round_half_even (y / 2 ^ k);
          r = of_int m * 2 ^ k / binary64_scale
      in if binary64_limit \<le> r then (if x < 0 then NInf else PInf)
         else Num (if x < 0 then - r else r))"

text \<open>\<^verbatim>\<open>WhiteSpace\<close> and \<^verbatim>\<open>LineTerminator\<close> of ECMAScript, as far as they fit in one
  character: what \<^verbatim>\<open>String.prototype.trim\<close> strips and the regular expression
  class \<^verbatim>\<open>\s\<close> matches.\<close>

definition is_space :: "char \<Rightarrow> bool" where
  "is_space ch \<longleftrightarrow>
     ch \<in> set [CHR 0x09, CHR 0x0A, CHR 0x0B, CHR 0x0C, CHR 0x0D, CHR '' '', CHR 0xA0]"

definition trim :: "string \<Rightarrow> string" where
  "trim s = rev (dropWhile is_space (rev (dropWhile is_space s)))"

subsection \<open>\<^verbatim>\<open>Number(string)\<close>\<close>

text \<open>
  \<^verbatim>\<open>StringToNumber\<close>: the mathematical value of the literal, rounded to binary64. (For a
  decimal literal of more than twenty significant digits ECMAScript lets an engine round
  the literal to twenty digits first; the model rounds the exact value, as engines do.)
\<close>

definition digit_val :: "char \<Rightarrow> nat option" where
  "digit_val ch =
     (let n = (of_char ch :: nat) in
      if 48 \<le> n \<and> n \<le> 57 then Some (n - 48)
      else if 97 \<le> n \<and> n \<le> 102 then Some (n - 87)
      else if 65 \<le> n \<and> n \<le> 70 then Some (n - 55)
      else None)"

definition is_digit_in :: "nat \<Rightarrow> char \<Rightarrow> bool" where
  "is_digit_in base ch = (case digit_val ch of None \<Rightarrow> False | Some d \<Rightarrow> d < base)"

definition digits_value :: "nat \<Rightarrow> string \<Rightarrow> nat" where
  "digits_value base ds = foldl (\<lambda>a ch. a * base + the (digit_val ch)) 0 ds"

text \<open>\<^verbatim>\<open>ExponentPart\<close>: nothing, or \<^verbatim>\<open>e\<close>/\<^verbatim>\<open>E\<close>, an optional sign and at least one digit.
  The result is the factor the mantissa is multiplied by.\<close>

definition exponent_part :: "string \<Rightarrow> rat option" where
  "exponent_part s =
     (case s of
        [] \<Rightarrow> Some 1
      | ch # r \<Rightarrow>
          if ch = CHR ''e'' \<or> ch = CHR ''E'' then
            (let neg = (r \<noteq> [] \<and> hd r = CHR ''-'');
                 ds = (if r \<noteq> [] \<and> (hd r = CHR ''-'' \<or> hd r = CHR ''+'') then tl r else r)
             in if ds \<noteq> [] \<and> list_all (is_digit_in 10) ds
                then Some (if neg then 1 / 10 ^ digits_value 10 ds else 10 ^ digits_value 10 ds)
                else None)
          else None)"

text \<open>\<^verbatim>\<open>StrUnsignedDecimalLiteral\<close>: \<^verbatim>\<open>Infinity\<close>, or digits with an optional fraction
  and exponent, or a fraction that starts with the point.\<close>

definition unsigned_decimal :: "string \<Rightarrow> jsnum" where
  "unsigned_decimal s =
     (if s = ''Infinity'' then PInf
      else
        let ip = takeWhile (is_digit_in 10) s;
            r = dropWhile (is_digit_in 10) s;
            point = (r \<noteq> [] \<and> hd r = CHR ''.'');
            fp = (if point then takeWhile (is_digit_in 10) (tl r) else []);
            r' = (if point then dropWhile (is_digit_in 10) (tl r) else r)
        in if ip = [] \<and> fp = [] then NaN
           else (case exponent_part r' of
                   None \<Rightarrow> NaN
                 | Some e \<Rightarrow>
                     to_binary64 ((of_nat (digits_value 10 ip)
                           + of_nat (digits_value 10 fp) / 10 ^ length fp) * e)))"

definition negate :: "jsnum \<Rightarrow> jsnum" where
  "negate x = (case x of NaN \<Rightarrow> NaN | Num q \<Rightarrow> Num (- q) | PInf \<Rightarrow> NInf | NInf \<Rightarrow> PInf)"

text \<open>\<^verbatim>\<open>NonDecimalIntegerLiteral\<close>: \<^verbatim>\<open>0x\<close>, \<^verbatim>\<open>0o\<close> or \<^verbatim>\<open>0b\<close> and at least one digit of
  that base, with no sign.\<close>

definition non_decimal :: "string \<Rightarrow> jsnum option" where
  "non_decimal s =
     (case s of
        z # k # ds \<Rightarrow>
          (let base = (if k = CHR ''x'' \<or> k = CHR ''X'' then 16
                       else if k = CHR ''o'' \<or> k = CHR ''O'' then 8
                       else if k = CHR ''b'' \<or> k = CHR ''B'' then 2 else (0::nat))
           in if z = CHR ''0'' \<and> base \<noteq> 0
              then Some (if ds \<noteq> [] \<and> list_all (is_digit_in base) ds
                         then to_binary64 (of_nat (digits_value base ds)) else NaN)
              else None)
      | _ \<Rightarrow> None)"

definition Number_js :: "string \<Rightarrow> jsnum" where
  "Number_js s =
     (let t = trim s in
      if t = [] then Num 0
      else if hd t = CHR ''+'' then unsigned_decimal (tl t)
      else if hd t = CHR ''-'' then negate (unsigned_decimal (tl t))
      else (case non_decimal t of Some x \<Rightarrow> x | None \<Rightarrow> unsigned_decimal t))"

subsection \<open>Operators on numbers\<close>

text \<open>Truthiness of a number: \<^verbatim>\<open>0\<close> and \<^verbatim>\<open>NaN\<close> are falsy.\<close>

definition truthy_num :: "jsnum \<Rightarrow> bool" where
  "truthy_num x \<longleftrightarrow> x \<noteq> NaN \<and> x \<noteq> Num 0"

text \<open>\<^verbatim>\<open>x < y\<close> and \<^verbatim>\<open>x === y\<close> on numbers: every comparison with \<^verbatim>\<open>NaN\<close> is false.
  \<^verbatim>\<open>x + y\<close> and \<^verbatim>\<open>x - y\<close> round the exact result to binary64.\<close>

fun js_less :: "jsnum \<Rightarrow> jsnum \<Rightarrow> bool" where
  "js_less NaN _ = False"
| "js_less _ NaN = False"
| "js_less (Num a) (Num b) = (a < b)"
| "js_less (Num a) PInf = True"
| "js_less (Num a) NInf = False"
| "js_less PInf _ = False"
| "js_less NInf NInf = False"
| "js_less NInf _ = True"

definition js_strict_eq :: "jsnum \<Rightarrow> jsnum \<Rightarrow> bool" where
  "js_strict_eq x y \<longleftrightarrow> x \<noteq> NaN \<and> x = y"

fun js_add :: "jsnum \<Rightarrow> jsnum \<Rightarrow> jsnum" where
  "js_add NaN _ = NaN"
| "js_add _ NaN = NaN"
| "js_add (Num a) (Num b) = to_binary64 (a + b)"
| "js_add PInf NInf = NaN"
| "js_add NInf PInf = NaN"
| "js_add PInf _ = PInf"
| "js_add NInf _ = NInf"
| "js_add (Num a) y = y"

definition js_sub :: "jsnum \<Rightarrow> jsnum \<Rightarrow> jsnum" where
  "js_sub x y = js_add x (negate y)"

text \<open>\<^verbatim>\<open>Math.max(...xs)\<close>: \<^verbatim>\<open>-Infinity\<close> for no argument, \<^verbatim>\<open>NaN\<close> as soon as one
  argument is \<^verbatim>\<open>NaN\<close>.\<close>

definition max2 :: "jsnum \<Rightarrow> jsnum \<Rightarrow> jsnum" where
  "max2 x y = (if x = NaN \<or> y = NaN then NaN else if js_less x y then y else x)"

definition Math_max :: "jsnum list \<Rightarrow> jsnum" where
  "Math_max xs = foldl max2 NInf xs"

subsection \<open>\<^verbatim>\<open>Array.from\<close>\<close>

text \<open>\<^verbatim>\<open>ToLength\<close>, which \<^verbatim>\<open>Array.from({ length: x }, ...)\<close> applies to \<^verbatim>\<open>x\<close>.\<close>

definition ToLength :: "jsnum \<Rightarrow> nat" where
  "ToLength x =
     (case x of
        NaN \<Rightarrow> 0
      | NInf \<Rightarrow> 0
      | PInf \<Rightarrow> 2 ^ 53 - 1
      | Num q \<Rightarrow> if q \<le> 0 then 0 else min (nat \<lfloor>q\<rfloor>) (2 ^ 53 - 1))"

text \<open>
  What a call throws. A computation that may throw returns \<open>Inl\<close> of the error or \<open>Inr\<close> of
  its value; \<open>all_or_error\<close> runs a list of them from left to right and stops at the first
  error.
\<close>

datatype js_error = RangeError

fun all_or_error :: "(js_error + 'a) list \<Rightarrow> js_error + 'a list" where
  "all_or_error [] = Inr []"
| "all_or_error (x # xs) =
     (case x of
        Inl e \<Rightarrow> Inl e
      | Inr y \<Rightarrow> (case all_or_error xs of Inl e \<Rightarrow> Inl e | Inr ys \<Rightarrow> Inr (y # ys)))"

text \<open>
  \<^verbatim>\<open>Array.from({ length: x }, (_, i) => f(i))\<close>, and also
  \<^verbatim>\<open>Array.from({ length: x }).map((_, i) => f(i))\<close>: the array is created with
  \<^verbatim>\<open>ToLength(x)\<close> places, which throws a \<^verbatim>\<open>RangeError\<close> above \<open>2^32 - 1\<close>, the greatest
  length of an array, and then filled place by place. Memory is not limited in the
  model.
\<close>

definition Array_from :: "jsnum \<Rightarrow> (nat \<Rightarrow> js_error + 'a) \<Rightarrow> js_error + 'a list" where
  "Array_from x f =
     (if 2 ^ 32 - 1 < ToLength x then Inl RangeError
      else all_or_error (map f [0..<ToLength x]))"

section \<open>The data model\<close>

text \<open>One entry of \<^verbatim>\<open>tableColumnDefs\<close>: \<^verbatim>\<open>{ name; type; options? }\<close>.\<close>

record ColumnDef =
  cd_name :: string
  cd_type :: string
  cd_options :: "string list option"

text \<open>\<^verbatim>\<open>interface ColumnConfig\<close>: an optional property is \<open>None\<close> while it is absent
  or \<^verbatim>\<open>undefined\<close>.\<close>

record ColumnConfig =
  label :: string
  internalName :: string
  ftype :: string
  required :: bool
  order :: jsnum
  options :: "string list option"
  tableName :: "string option"
  tableRows :: "jsnum option"
  tableColumns :: "jsnum option"
  tableHeaders :: "string list option"
  tableData :: "string list list option"
  htmlContent :: "string option"
  tableColumnDefs :: "ColumnDef list option"

text \<open>\<^verbatim>\<open>interface NewFormState\<close>. The builder's inputs that share a name with a property
  of \<^verbatim>\<open>ColumnConfig\<close> carry the prefix \<open>st_\<close>.\<close>

record NewFormState =
  formTitle :: string
  description :: string
  columns :: "ColumnConfig list"
  newColumnName :: string
  newInternalName :: string
  newColumnType :: string
  st_required :: bool
  st_order :: string
  st_options :: "string list"
  newChoiceValue :: string
  st_tableName :: string
  st_tableRows :: string
  st_tableColumns :: string
  st_tableHeaders :: "string list"
  currentHeaderInput :: string
  st_tableData :: "string list list"
  plainHtmlInput :: string
  st_tableColumnDefs :: "ColumnDef list"
  currentHeaderType :: string
  currentHeaderOptions :: "string list"
  currentHeaderOptionInput :: string
  isFormInfoOpen :: bool
  isFieldsConfigOpen :: bool

text \<open>The state the constructor of \<^verbatim>\<open>NewForm\<close> sets.\<close>

definition initial_state :: NewFormState where
  "initial_state =
     \<lparr> formTitle = [], description = [], columns = [],
       newColumnName = [], newInternalName = [], newColumnType = ''text'',
       st_required = False, st_order = [], st_options = [], newChoiceValue = [],
       st_tableName = [], st_tableRows = [], st_tableColumns = [], st_tableHeaders = [],
       currentHeaderInput = [], st_tableData = [], plainHtmlInput = [],
       st_tableColumnDefs = [], currentHeaderType = ''text'', currentHeaderOptions = [],
       currentHeaderOptionInput = [], isFormInfoOpen = True, isFieldsConfigOpen = True \<rparr>"

section \<open>Editing the pending cell grid: \<^verbatim>\<open>_setTableCell\<close>\<close>

text \<open>
  \<^verbatim>\<open>
  const newData = prev.tableData.map(row => [...row]);
  while (newData.length <= r)
    newData.push(Array.from({ length: Number(prev.tableColumns) || (c + 1) }, () => ""));
  while (newData[r].length <= c) newData[r].push("");
  newData[r][c] = value;
  \<close>
  The indices \<open>r\<close> and \<open>c\<close> are the positions the grid of inputs passes, natural
  numbers. \<open>new_row_length\<close> is the operand \<^verbatim>\<open>Number(prev.tableColumns) || (c + 1)\<close>.
\<close>

definition new_row_length :: "string \<Rightarrow> nat \<Rightarrow> jsnum" where
  "new_row_length tc c =
     (if truthy_num (Number_js tc) then Number_js tc else js_add (Num (of_nat c)) (Num 1))"

function ensure_rows ::
  "string \<Rightarrow> nat \<Rightarrow> nat \<Rightarrow> string list list \<Rightarrow> js_error + string list list" where
  "ensure_rows tc c r newData =
     (if length newData \<le> r then
        (case Array_from (new_row_length tc c) (\<lambda>_. Inr []) of
           Inl e \<Rightarrow> Inl e
         | Inr row \<Rightarrow> ensure_rows tc c r (newData @ [row]))
      else Inr newData)"
  by pat_completeness auto
termination
  by (relation "measure (\<lambda>(tc, c, r, newData). Suc r - length newData)") auto

function ensure_columns :: "nat \<Rightarrow> string list \<Rightarrow> string list" where
  "ensure_columns c row = (if length row \<le> c then ensure_columns c (row @ [[]]) else row)"
  by pat_completeness auto
termination
  by (relation "measure (\<lambda>(c, row). Suc c - length row)") auto

declare ensure_rows.simps [simp del] ensure_columns.simps [simp del]

definition setTableCell ::
  "NewFormState \<Rightarrow> nat \<Rightarrow> nat \<Rightarrow> string \<Rightarrow> js_error + NewFormState" where
  "setTableCell prev r c v =
     (let newData = map (\<lambda>row. row) (st_tableData prev) in
      case ensure_rows (st_tableColumns prev) c r newData of
        Inl e \<Rightarrow> Inl e
      | Inr newData \<Rightarrow>
          let newData = newData[r := ensure_columns c (newData ! r)];
              newData = newData[r := (newData ! r)[c := v]]
          in Inr (prev\<lparr> st_tableData := newData \<rparr>))"

section \<open>The other editing operations of the builder\<close>

text \<open>\<^verbatim>\<open>_addChoice\<close>: \<^verbatim>\<open>if (!this.state.newChoiceValue.trim()) return;\<close> and then the
  trimmed value is appended to the pending options.\<close>

definition addChoice :: "NewFormState \<Rightarrow> NewFormState" where
  "addChoice s =
     (if trim (newChoiceValue s) = [] then s
      else s\<lparr> st_options := st_options s @ [trim (newChoiceValue s)], newChoiceValue := [] \<rparr>)"

text \<open>\<^verbatim>\<open>_addTableHeader\<close>.\<close>

definition addTableHeader :: "NewFormState \<Rightarrow> NewFormState" where
  "addTableHeader s =
     (if trim (currentHeaderInput s) = [] then s
      else
        let header = trim (currentHeaderInput s);
            type = (if currentHeaderType s \<noteq> [] then currentHeaderType s else ''text'');
            opts = (if currentHeaderOptions s \<noteq> [] then Some (currentHeaderOptions s) else None)
        in s\<lparr> st_tableHeaders := st_tableHeaders s @ [header],
               st_tableColumnDefs := st_tableColumnDefs s
                  @ [\<lparr> cd_name = header, cd_type = type, cd_options = opts \<rparr>],
               currentHeaderInput := [],
               currentHeaderType := ''text'',
               currentHeaderOptions := [],
               currentHeaderOptionInput := [] \<rparr>)"

text \<open>\<^verbatim>\<open>xs.filter((_, i) => i !== index)\<close>.\<close>

definition filter_out_index :: "nat \<Rightarrow> 'a list \<Rightarrow> 'a list" where
  "filter_out_index index xs = map fst (filter (\<lambda>(x, i). i \<noteq> index) (zip xs [0..<length xs]))"

definition removeTableHeader :: "nat \<Rightarrow> NewFormState \<Rightarrow> NewFormState" where
  "removeTableHeader index s =
     s\<lparr> st_tableHeaders := filter_out_index index (st_tableHeaders s),
         st_tableColumnDefs := filter_out_index index (st_tableColumnDefs s) \<rparr>"

definition addHeaderOption :: "NewFormState \<Rightarrow> NewFormState" where
  "addHeaderOption s =
     (if trim (currentHeaderOptionInput s) = [] then s
      else s\<lparr> currentHeaderOptions := currentHeaderOptions s @ [trim (currentHeaderOptionInput s)],
               currentHeaderOptionInput := [] \<rparr>)"

definition removeHeaderOption :: "nat \<Rightarrow> NewFormState \<Rightarrow> NewFormState" where
  "removeHeaderOption index s =
     s\<lparr> currentHeaderOptions := filter_out_index index (currentHeaderOptions s) \<rparr>"

text \<open>
  The \<^verbatim>\<open>onChange\<close> of the two "Number of Columns" boxes, the one shown for
  \<^verbatim>\<open>htmltable\<close> and the one shown for \<^verbatim>\<open>htmlrender\<close>; \<open>v\<close> is \<^verbatim>\<open>v || ""\<close>. Both empty
  the pending headers and the pending column definitions; the second also sets the
  pending grid to \<^verbatim>\<open>tableRows\<close> rows of \<open>cols\<close> empty strings when both are there:
  \<^verbatim>\<open>Array.from({ length: Number(prev.tableRows) }, () => Array.from({ length: cols }, () => ""))\<close>.
  The \<^verbatim>\<open>onChange\<close> of the two "Number of Rows" boxes assigns \<^verbatim>\<open>tableRows\<close> and nothing
  else.
\<close>

definition setTableRows :: "string \<Rightarrow> NewFormState \<Rightarrow> NewFormState" where
  "setTableRows v s = s\<lparr> st_tableRows := v \<rparr>"

definition setTableColumns_htmltable :: "string \<Rightarrow> NewFormState \<Rightarrow> NewFormState" where
  "setTableColumns_htmltable v s =
     s\<lparr> st_tableColumns := v,
         st_tableHeaders := [],
         currentHeaderInput := [],
         st_tableColumnDefs := [],
         currentHeaderType := [],
         currentHeaderOptions := [],
         currentHeaderOptionInput := [] \<rparr>"

definition setTableColumns_htmlrender ::
  "string \<Rightarrow> NewFormState \<Rightarrow> js_error + NewFormState" where
  "setTableColumns_htmlrender v prev =
     (let cols = Number_js v in
      case (if js_less (Num 0) cols \<and> st_tableRows prev \<noteq> []
            then Array_from (Number_js (st_tableRows prev))
                   (\<lambda>_. Array_from cols (\<lambda>_. Inr []))
            else Inr []) of
        Inl e \<Rightarrow> Inl e
      | Inr grid \<Rightarrow>
          Inr (prev\<lparr> st_tableColumns := v,
                     st_tableHeaders := [],
                     currentHeaderInput := [],
                     currentHeaderType := [],
                     currentHeaderOptions := [],
                     currentHeaderOptionInput := [],
                     st_tableColumnDefs := [],
                     st_tableData := grid \<rparr>))"

section \<open>Adding a field: \<^verbatim>\<open>_addColumn\<close>\<close>

text \<open>\<^verbatim>\<open>.replace(/\s+/g, "")\<close> deletes every maximal run of white space and
  \<^verbatim>\<open>.replace(/[^a-zA-Z0-9]/g, "")\<close> every character that is not an ASCII letter or
  digit.\<close>

function replace_space_runs :: "string \<Rightarrow> string" where
  "replace_space_runs [] = []"
| "replace_space_runs (ch # s) =
     (if is_space ch then replace_space_runs (dropWhile is_space s)
      else ch # replace_space_runs s)"
  by pat_completeness auto
termination
  by (relation "measure length") (auto simp: length_dropWhile_le less_Suc_eq_le)

definition is_alnum :: "char \<Rightarrow> bool" where
  "is_alnum ch =
     (let n = (of_char ch :: nat) in
      (97 \<le> n \<and> n \<le> 122) \<or> (65 \<le> n \<and> n \<le> 90) \<or> (48 \<le> n \<and> n \<le> 57))"

fun replace_non_alnum :: "string \<Rightarrow> string" where
  "replace_non_alnum [] = []"
| "replace_non_alnum (ch # s) =
     (if is_alnum ch then ch # replace_non_alnum s else replace_non_alnum s)"

definition generatedInternalName :: "NewFormState \<Rightarrow> string" where
  "generatedInternalName s =
     (if newInternalName s \<noteq> [] then newInternalName s
      else replace_non_alnum (replace_space_runs (newColumnName s)))"

definition orderNumber :: "NewFormState \<Rightarrow> jsnum" where
  "orderNumber s =
     (if st_order s \<noteq> [] then Number_js (st_order s)
      else
        let maxOrder = (if length (columns s) > 0 then Math_max (map order (columns s))
                        else Num 0)
        in js_add maxOrder (Num 1))"

definition choice_types :: "string list" where
  "choice_types = [''dropdown'', ''radio'', ''checkbox'']"

text \<open>The object \<^verbatim>\<open>newColumn\<close>, built in the order of the source: the five common
  properties, then the payload of the type.\<close>

definition newColumn :: "NewFormState \<Rightarrow> ColumnConfig" where
  "newColumn s =
     (let col = \<lparr> label = newColumnName s,
                  internalName = generatedInternalName s,
                  ftype = newColumnType s,
                  required = st_required s,
                  order = orderNumber s,
                  options = None, tableName = None, tableRows = None, tableColumns = None,
                  tableHeaders = None, tableData = None, htmlContent = None,
                  tableColumnDefs = None \<rparr>;
          col = (if newColumnType s \<in> set choice_types
                 then col\<lparr> options := Some (st_options s) \<rparr> else col);
          col = (if newColumnType s = ''htmltable''
                 then col\<lparr> tableName := Some (st_tableName s),
                           tableRows := Some (Number_js (st_tableRows s)),
                           tableColumns := Some (Number_js (st_tableColumns s)),
                           tableHeaders := Some (map cd_name (st_tableColumnDefs s)),
                           tableColumnDefs := Some (map (\<lambda>d. d) (st_tableColumnDefs s)),
                           tableData := Some (map (\<lambda>r. r) (st_tableData s)) \<rparr>
                 else col);
          col = (if newColumnType s = ''htmlrender''
                 then col\<lparr> tableName := Some (st_tableName s),
                           tableRows := Some (Number_js (st_tableRows s)),
                           tableColumns := Some (Number_js (st_tableColumns s)),
                           tableHeaders := Some (st_tableHeaders s),
                           tableColumnDefs := Some (map (\<lambda>d. d) (st_tableColumnDefs s)),
                           tableData := Some (map (\<lambda>r. r) (st_tableData s)) \<rparr>
                 else col)
      in if newColumnType s = ''plainhtml''
         then col\<lparr> htmlContent := Some (plainHtmlInput s) \<rparr> else col)"

text \<open>How a call ends without adding a field: the silent \<^verbatim>\<open>return\<close> on a blank column
  name, an \<^verbatim>\<open>alert\<close> with its message, or (for the button) the disabled state.\<close>

datatype rejection = BlankName | Alert string | Disabled

definition headers_mismatch :: "NewFormState \<Rightarrow> bool" where
  "headers_mismatch s \<longleftrightarrow>
     \<not> js_strict_eq (Num (of_nat (length (st_tableHeaders s)))) (Number_js (st_tableColumns s))"

definition addColumn :: "NewFormState \<Rightarrow> rejection + NewFormState" where
  "addColumn s =
     (if trim (newColumnName s) = [] then Inl BlankName
      else if newColumnType s = ''htmltable'' \<and> trim (st_tableName s) = []
        then Inl (Alert ''Table name is required for HTML Table fields.'')
      else if newColumnType s = ''htmltable''
              \<and> (st_tableRows s = [] \<or> js_less (Number_js (st_tableRows s)) (Num 1))
        then Inl (Alert ''Number of rows must be at least 1.'')
      else if newColumnType s = ''htmltable''
              \<and> (st_tableColumns s = [] \<or> js_less (Number_js (st_tableColumns s)) (Num 1))
        then Inl (Alert ''Number of columns must be at least 1.'')
      else if newColumnType s = ''htmltable'' \<and> headers_mismatch s
        then Inl (Alert (''Please provide exactly '' @ st_tableColumns s @ '' column header(s).''))
      else Inr (s\<lparr> columns := columns s @ [newColumn s],
                     newColumnName := [],
                     newInternalName := [],
                     st_order := [],
                     st_options := [],
                     st_tableName := [],
                     st_tableRows := [],
                     st_tableColumns := [],
                     st_tableHeaders := [],
                     currentHeaderInput := [],
                     st_tableData := [],
                     plainHtmlInput := [] \<rparr>))"

text \<open>The \<^verbatim>\<open>disabled\<close> expression of the button "Add Column", and a click on the button:
  a disabled button does not call \<^verbatim>\<open>_addColumn\<close>.\<close>

definition addColumn_disabled :: "NewFormState \<Rightarrow> bool" where
  "addColumn_disabled s \<longleftrightarrow>
     newColumnName s = []
     \<or> (newColumnType s \<in> set choice_types \<and> length (st_options s) = 0)
     \<or> (newColumnType s = ''htmltable''
        \<and> (st_tableName s = [] \<or> st_tableRows s = [] \<or> st_tableColumns s = []
           \<or> headers_mismatch s))"

definition click_AddColumn :: "NewFormState \<Rightarrow> rejection + NewFormState" where
  "click_AddColumn s = (if addColumn_disabled s then Inl Disabled else addColumn s)"

section \<open>Saving: \<^verbatim>\<open>_submitForm\<close>\<close>

text \<open>
  \<^verbatim>\<open>[...this.state.columns].sort((a, b) => a.order - b.order)\<close>. \<^verbatim>\<open>Array.prototype.sort\<close>
  is stable and reads a comparator result that is \<^verbatim>\<open>NaN\<close> as \<^verbatim>\<open>+0\<close>. It is modelled by
  the stable insertion sort: an element is moved past the elements the comparator puts
  it after (a result above zero) and stops before the first one it does not. For a
  comparator that is not a consistent ordering of the elements (here: when an order is
  \<^verbatim>\<open>NaN\<close>) ECMAScript leaves the result to the implementation; the model need not give
  the order an engine gives then, and nothing is proved about that case.
\<close>

fun insert_sorted :: "('a \<Rightarrow> 'a \<Rightarrow> jsnum) \<Rightarrow> 'a \<Rightarrow> 'a list \<Rightarrow> 'a list" where
  "insert_sorted cmp x [] = [x]"
| "insert_sorted cmp x (y # ys) =
     (if js_less (Num 0) (cmp x y) then y # insert_sorted cmp x ys else x # y # ys)"

definition sort_js :: "('a \<Rightarrow> 'a \<Rightarrow> jsnum) \<Rightarrow> 'a list \<Rightarrow> 'a list" where
  "sort_js cmp xs = foldr (insert_sorted cmp) xs []"

definition compare_order :: "ColumnConfig \<Rightarrow> ColumnConfig \<Rightarrow> jsnum" where
  "compare_order a b = js_sub (order a) (order b)"

definition sortedColumns :: "NewFormState \<Rightarrow> ColumnConfig list" where
  "sortedColumns s = sort_js compare_order (map (\<lambda>c. c) (columns s))"

text \<open>
  \<^verbatim>\<open>JSON.stringify\<close> and \<^verbatim>\<open>JSON.parse\<close> are the platform's. The model stops at the
  document as a tree of values, the one \<^verbatim>\<open>JSON.parse\<close> returns for the text
  \<^verbatim>\<open>JSON.stringify\<close> writes: \<open>json_of_...\<close> gives the tree for an object of the builder (a
  property that is \<^verbatim>\<open>undefined\<close> is left out, a number that is not finite is written
  \<^verbatim>\<open>null\<close>, and a finite number is read back as the same number, which ECMAScript
  guarantees for the numeral it writes).
\<close>

datatype json =
    JNull
  | JBool bool
  | JNumber rat
  | JString string
  | JArray "json list"
  | JObject "(string \<times> json) list"

definition json_of_number :: "jsnum \<Rightarrow> json" where
  "json_of_number x = (case x of Num q \<Rightarrow> JNumber q | _ \<Rightarrow> JNull)"

definition json_of_strings :: "string list \<Rightarrow> json" where
  "json_of_strings xs = JArray (map JString xs)"

definition optional :: "string \<Rightarrow> ('a \<Rightarrow> json) \<Rightarrow> 'a option \<Rightarrow> (string \<times> json) list" where
  "optional k f v = (case v of None \<Rightarrow> [] | Some x \<Rightarrow> [(k, f x)])"

definition json_of_ColumnDef :: "ColumnDef \<Rightarrow> json" where
  "json_of_ColumnDef d =
     JObject ([(''name'', JString (cd_name d)), (''type'', JString (cd_type d))]
              @ optional ''options'' json_of_strings (cd_options d))"

definition json_of_ColumnConfig :: "ColumnConfig \<Rightarrow> json" where
  "json_of_ColumnConfig f =
     JObject ([(''label'', JString (label f)),
               (''internalName'', JString (internalName f)),
               (''type'', JString (ftype f)),
               (''required'', JBool (required f)),
               (''order'', json_of_number (order f))]
              @ optional ''options'' json_of_strings (options f)
              @ optional ''tableName'' JString (tableName f)
              @ optional ''tableRows'' json_of_number (tableRows f)
              @ optional ''tableColumns'' json_of_number (tableColumns f)
              @ optional ''tableHeaders'' json_of_strings (tableHeaders f)
              @ optional ''tableColumnDefs'' (\<lambda>ds. JArray (map json_of_ColumnDef ds))
                  (tableColumnDefs f)
              @ optional ''tableData'' (\<lambda>rows. JArray (map json_of_strings rows)) (tableData f)
              @ optional ''htmlContent'' JString (htmlContent f))"

text \<open>\<^verbatim>\<open>finalJson\<close> and the item \<^verbatim>\<open>_submitForm\<close> hands to the list store.\<close>

definition finalJson :: "NewFormState \<Rightarrow> json" where
  "finalJson s =
     JObject [(''formTitle'', JString (formTitle s)),
              (''description'', JString (description s)),
              (''fields'', JArray (map json_of_ColumnConfig (sortedColumns s)))]"

record ListItem =
  Title :: string
  ConfigurationJSON :: "json option"
  Status :: string

text \<open>The result of \<^verbatim>\<open>_submitForm\<close> when the store accepts the item: the item added and
  the state set afterwards. The store's own failure is outside the model.\<close>

definition submitForm :: "NewFormState \<Rightarrow> rejection + ListItem \<times> NewFormState" where
  "submitForm s =
     (if trim (formTitle s) = [] then Inl (Alert ''Form Title is required.'')
      else if length (columns s) = 0 then Inl (Alert ''Please add at least one field.'')
      else Inr (\<lparr> Title = formTitle s, ConfigurationJSON = Some (finalJson s),
                    Status = ''Active'' \<rparr>,
                s\<lparr> formTitle := [], description := [], columns := [],
                    newColumnName := [], newInternalName := [], newColumnType := ''text'',
                    st_required := False, st_order := [], st_options := [],
                    newChoiceValue := [], st_tableName := [], st_tableRows := [],
                    st_tableColumns := [], st_tableHeaders := [],
                    currentHeaderInput := [] \<rparr>))"

section \<open>Loading: \<^verbatim>\<open>Eform.render\<close>\<close>

text \<open>
  The renderer works on the parsed document, of type \<^verbatim>\<open>any\<close>, and so does the model: a
  property is looked up in the tree (the last one of that name, as \<^verbatim>\<open>JSON.parse\<close> keeps
  it), and nothing is converted but the operands of the comparator.
\<close>

fun get_prop :: "string \<Rightarrow> json \<Rightarrow> json option" where
  "get_prop k (JObject ps) = map_of (rev ps) k"
| "get_prop k _ = None"

text \<open>Truthiness of a value of the tree.\<close>

fun truthy_json :: "json \<Rightarrow> bool" where
  "truthy_json JNull = False"
| "truthy_json (JBool b) = b"
| "truthy_json (JNumber q) = (q \<noteq> 0)"
| "truthy_json (JString s) = (s \<noteq> [])"
| "truthy_json (JArray xs) = True"
| "truthy_json (JObject ps) = True"

text \<open>
  \<^verbatim>\<open>ToNumber\<close> of a property that may be missing (\<^verbatim>\<open>undefined\<close>), as the subtraction
  \<^verbatim>\<open>a.order - b.order\<close> applies it. An array is converted through its text, which the
  model does not follow: the result is \<open>None\<close> there.
\<close>

fun ToNumber :: "json option \<Rightarrow> jsnum option" where
  "ToNumber None = Some NaN"
| "ToNumber (Some JNull) = Some (Num 0)"
| "ToNumber (Some (JBool b)) = Some (Num (if b then 1 else 0))"
| "ToNumber (Some (JNumber q)) = Some (Num q)"
| "ToNumber (Some (JString s)) = Some (Number_js s)"
| "ToNumber (Some (JArray xs)) = None"
| "ToNumber (Some (JObject ps)) = Some NaN"

text \<open>The operand \<^verbatim>\<open>a.order\<close> as a number, for an element \<^verbatim>\<open>a\<close> that is an object.\<close>

fun order_of :: "json \<Rightarrow> jsnum option" where
  "order_of (JObject ps) = ToNumber (get_prop ''order'' (JObject ps))"
| "order_of _ = None"

definition compare_fields :: "json \<Rightarrow> json \<Rightarrow> jsnum" where
  "compare_fields a b = js_sub (the (order_of a)) (the (order_of b))"

text \<open>
  \<^verbatim>\<open>parsedConfig?.fields ? [...parsedConfig.fields].sort((a, b) => a.order - b.order) : null\<close>.
  The inner \<open>option\<close> is the \<^verbatim>\<open>null\<close> of the source: no configuration, or one whose
  \<^verbatim>\<open>fields\<close> is missing or falsy. The outer \<open>option\<close> is the model's: it covers the
  documents whose \<^verbatim>\<open>fields\<close> is an array of objects with an \<^verbatim>\<open>order\<close> that is missing or
  not an array, which includes every document the builder writes, and says nothing
  (\<open>None\<close>) about any other.
\<close>

definition sortedFields :: "json option \<Rightarrow> json list option option" where
  "sortedFields parsedConfig =
     (case parsedConfig of
        None \<Rightarrow> Some None
      | Some doc \<Rightarrow>
          (case get_prop ''fields'' doc of
             None \<Rightarrow> Some None
           | Some x \<Rightarrow>
               if \<not> truthy_json x then Some None
               else (case x of
                       JArray fs \<Rightarrow>
                         if list_all (\<lambda>f. order_of f \<noteq> None) fs
                         then Some (Some (sort_js compare_fields fs)) else None
                     | _ \<Rightarrow> None)))"

section \<open>Rendering one field: \<^verbatim>\<open>renderDynamicField\<close>\<close>

text \<open>The keys of \<^verbatim>\<open>columnTypes\<close>, the field kinds the builder offers.\<close>

definition field_kinds :: "string list" where
  "field_kinds =
     [''text'', ''multiline'', ''number'', ''currency'', ''date'', ''dropdown'', ''radio'',
      ''checkbox'', ''yesno'', ''person'', ''htmltable'', ''htmlrender'', ''plainhtml'']"

text \<open>A natural number in a template literal, and \<^verbatim>\<open>String.prototype.split\<close> at one
  character.\<close>

fun string_of_nat :: "nat \<Rightarrow> string" where
  "string_of_nat n =
     (if n < 10 then [''0123456789'' ! n]
      else string_of_nat (n div 10) @ [''0123456789'' ! (n mod 10)])"

declare string_of_nat.simps [simp del]

fun split_on :: "char \<Rightarrow> string \<Rightarrow> string list" where
  "split_on sep [] = [[]]"
| "split_on sep (ch # s) =
     (if ch = sep then [] # split_on sep s
      else (case split_on sep s of w # ws \<Rightarrow> (ch # w) # ws | [] \<Rightarrow> [[ch]]))"

text \<open>What the renderer produces, reduced to the kind of control and the values bound
  to it. A cell of an editable table is one of the inputs of \<^verbatim>\<open>renderCell\<close>.\<close>

datatype cell_control =
    CellNumber string string
  | CellDate string string
  | CellSelect string "string list" string
  | CellCheckboxes "string list" "string list"
  | CellYesNo bool string
  | CellTextArea string string
  | CellText string string

datatype control =
    TextBox string string bool
  | NumberBox string string
  | DateBox string string
  | TextArea string string
  | SelectBox string string "string list"
  | RadioButtons string string "string list"
  | Checkboxes string string "string list"
  | YesNoBox string string
  | CurrencyBox string string
  | EditableTable "string option" "string list" "cell_control list list"
  | ReadOnlyTable "string option" "string list" "string list list"
  | RawHtml string string

text \<open>A value that may be \<^verbatim>\<open>undefined\<close> is an \<open>option\<close>; \<^verbatim>\<open>!val\<close> holds for \<^verbatim>\<open>undefined\<close>
  and for the empty string, and \<^verbatim>\<open>val || ''\<close> is \<open>or_empty\<close>.\<close>

definition falsy :: "string option \<Rightarrow> bool" where
  "falsy val \<longleftrightarrow> val = None \<or> val = Some []"

definition or_empty :: "string option \<Rightarrow> string" where
  "or_empty val = (case val of None \<Rightarrow> [] | Some v \<Rightarrow> v)"

definition or_nil :: "'a list option \<Rightarrow> 'a list" where
  "or_nil xs = (case xs of None \<Rightarrow> [] | Some ys \<Rightarrow> ys)"

text \<open>\<^verbatim>\<open>x || 0\<close> on a number that may be missing.\<close>

definition or_zero :: "jsnum option \<Rightarrow> jsnum" where
  "or_zero x = (case x of None \<Rightarrow> Num 0 | Some y \<Rightarrow> if truthy_num y then y else Num 0)"

definition column_label :: "nat \<Rightarrow> string" where
  "column_label c = ''Column '' @ string_of_nat (c + 1)"

text \<open>\<^verbatim>\<open>defs[c] || { name: `Column ${c + 1}`, type: 'text' }\<close>.\<close>

definition column_def :: "ColumnDef list \<Rightarrow> nat \<Rightarrow> ColumnDef" where
  "column_def defs c =
     (if c < length defs then defs ! c
      else \<lparr> cd_name = column_label c, cd_type = ''text'', cd_options = None \<rparr>)"

subsection \<open>The editable table (\<^verbatim>\<open>htmltable\<close>)\<close>

text \<open>\<^verbatim>\<open>field.tableColumnDefs || (field.tableHeaders || []).map(h => ({ name: h, type: 'text' }))\<close>.\<close>

definition colDefs :: "ColumnConfig \<Rightarrow> ColumnDef list" where
  "colDefs field =
     (case tableColumnDefs field of
        Some ds \<Rightarrow> ds
      | None \<Rightarrow> map (\<lambda>h. \<lparr> cd_name = h, cd_type = ''text'', cd_options = None \<rparr>)
                  (or_nil (tableHeaders field)))"

definition cell_name :: "ColumnConfig \<Rightarrow> nat \<Rightarrow> nat \<Rightarrow> string" where
  "cell_name field r c = internalName field @ ''-'' @ string_of_nat r @ ''-'' @ string_of_nat c"

text \<open>\<^verbatim>\<open>field.tableData && field.tableData[r] ? field.tableData[r][c] : ""\<close>: undefined
  when the row exists and is too short.\<close>

definition stored_cell :: "ColumnConfig \<Rightarrow> nat \<Rightarrow> nat \<Rightarrow> string option" where
  "stored_cell field r c =
     (case tableData field of
        None \<Rightarrow> Some []
      | Some d \<Rightarrow>
          if r < length d then (if c < length (d ! r) then Some (d ! r ! c) else None)
          else Some [])"

text \<open>The variable \<^verbatim>\<open>val\<close> of \<^verbatim>\<open>renderCell\<close> after the default for \<^verbatim>\<open>yesno\<close>:
  \<^verbatim>\<open>this.state.formData?.[name] ?? (stored cell)\<close>, then \<^verbatim>\<open>'false'\<close> when the column is
  \<^verbatim>\<open>yesno\<close> and \<^verbatim>\<open>!val\<close>.\<close>

definition renderCell_val ::
  "ColumnConfig \<Rightarrow> (string \<rightharpoonup> string) \<Rightarrow> nat \<Rightarrow> nat \<Rightarrow> string option" where
  "renderCell_val field formData r c =
     (let name = cell_name field r c;
          def = column_def (colDefs field) c;
          val = (case formData name of Some v \<Rightarrow> Some v | None \<Rightarrow> stored_cell field r c)
      in if cd_type def = ''yesno'' \<and> falsy val then Some ''false'' else val)"

definition renderCell ::
  "ColumnConfig \<Rightarrow> (string \<rightharpoonup> string) \<Rightarrow> nat \<Rightarrow> nat \<Rightarrow> cell_control" where
  "renderCell field formData r c =
     (let name = cell_name field r c;
          def = column_def (colDefs field) c;
          val = renderCell_val field formData r c;
          t = cd_type def
      in if t = ''number'' \<or> t = ''currency'' then CellNumber (or_empty val) name
         else if t = ''date'' then CellDate (or_empty val) name
         else if t = ''dropdown'' \<or> t = ''radio''
           then CellSelect (or_empty val) (or_nil (cd_options def)) name
         else if t = ''checkbox''
           then CellCheckboxes (if falsy val then [] else split_on CHR '','' (or_empty val))
                  (or_nil (cd_options def))
         else if t = ''yesno'' then CellYesNo (val = Some ''true'') name
         else if t = ''multiline'' then CellTextArea (or_empty val) name
         else CellText (or_empty val) name)"

definition table_caption :: "ColumnConfig \<Rightarrow> string option" where
  "table_caption field = (if falsy (tableName field) then None else tableName field)"

text \<open>The header row, \<^verbatim>\<open>Array.from({ length: cols }).map(...)\<close>, and then the body,
  \<^verbatim>\<open>Array.from({ length: rows }).map((_, r) => Array.from({ length: cols }).map(...))\<close>.\<close>

definition htmltable_control ::
  "ColumnConfig \<Rightarrow> (string \<rightharpoonup> string) \<Rightarrow> js_error + control" where
  "htmltable_control field formData =
     (let rows = or_zero (tableRows field);
          cols = or_zero (tableColumns field);
          defs = colDefs field
      in case Array_from cols
                (\<lambda>c. Inr (if c < length defs \<and> cd_name (defs ! c) \<noteq> [] then cd_name (defs ! c)
                           else column_label c)) of
           Inl e \<Rightarrow> Inl e
         | Inr headers \<Rightarrow>
             (case Array_from rows
                     (\<lambda>r. Array_from cols (\<lambda>c. Inr (renderCell field formData r c))) of
                Inl e \<Rightarrow> Inl e
              | Inr cells \<Rightarrow> Inr (EditableTable (table_caption field) headers cells)))"

subsection \<open>The read-only table (\<^verbatim>\<open>htmlrender\<close>)\<close>

text \<open>\<^verbatim>\<open>displayValue\<close> of the cell at \<open>(rowIndex, colIndex)\<close>.\<close>

definition displayValue :: "ColumnConfig \<Rightarrow> nat \<Rightarrow> nat \<Rightarrow> string" where
  "displayValue field rowIndex colIndex =
     (let colDef = column_def (or_nil (tableColumnDefs field)) colIndex;
          renderData = or_nil (tableData field);
          cellValue = (if rowIndex < length renderData \<and> colIndex < length (renderData ! rowIndex)
                       then renderData ! rowIndex ! colIndex else [])
      in if cd_type colDef = ''yesno'' \<and> cellValue = [] then ''false'' else cellValue)"

definition htmlrender_control :: "ColumnConfig \<Rightarrow> js_error + control" where
  "htmlrender_control field =
     (let renderRows = or_zero (tableRows field);
          renderCols = or_zero (tableColumns field);
          renderHeaders = or_nil (tableHeaders field)
      in case Array_from renderCols
                (\<lambda>c. Inr (if c < length renderHeaders \<and> renderHeaders ! c \<noteq> []
                           then renderHeaders ! c else column_label c)) of
           Inl e \<Rightarrow> Inl e
         | Inr headers \<Rightarrow>
             (case Array_from renderRows
                     (\<lambda>r. Array_from renderCols (\<lambda>c. Inr (displayValue field r c))) of
                Inl e \<Rightarrow> Inl e
              | Inr cells \<Rightarrow> Inr (ReadOnlyTable (table_caption field) headers cells)))"

subsection \<open>The dispatch\<close>

text \<open>The \<^verbatim>\<open>switch (field.type)\<close>. The result of a call that returns is the list of
  messages passed to \<^verbatim>\<open>console.warn\<close> and the element returned, \<open>None\<close> for \<^verbatim>\<open>null\<close>.\<close>

definition renderDynamicField ::
  "ColumnConfig \<Rightarrow> (string \<rightharpoonup> string) \<Rightarrow> js_error + string list \<times> control option" where
  "renderDynamicField field formData =
     (let t = ftype field; l = label field; n = internalName field in
      if t = ''text'' then Inr ([], Some (TextBox l n (required field)))
      else if t = ''number'' then Inr ([], Some (NumberBox l n))
      else if t = ''date'' then Inr ([], Some (DateBox l n))
      else if t = ''multiline'' then Inr ([], Some (TextArea l n))
      else if t = ''dropdown'' then Inr ([], Some (SelectBox l n (or_nil (options field))))
      else if t = ''radio'' then Inr ([], Some (RadioButtons l n (or_nil (options field))))
      else if t = ''checkbox'' then Inr ([], Some (Checkboxes l n (or_nil (options field))))
      else if t = ''yesno'' then Inr ([], Some (YesNoBox l n))
      else if t = ''currency'' then Inr ([], Some (CurrencyBox l n))
      else if t = ''htmltable''
        then (case htmltable_control field formData of
                Inl e \<Rightarrow> Inl e | Inr element \<Rightarrow> Inr ([], Some element))
      else if t = ''htmlrender''
        then (case htmlrender_control field of
                Inl e \<Rightarrow> Inl e | Inr element \<Rightarrow> Inr ([], Some element))
      else if t = ''plainhtml'' then Inr ([], Some (RawHtml l (or_empty (htmlContent field))))
      else Inr ([''Unsupported field type: '' @ t], None))"

section \<open>Notions used to state the properties\<close>

text \<open>A key that orders the numbers other than \<^verbatim>\<open>NaN\<close> the way \<^verbatim>\<open><\<close> does.\<close>

definition order_key :: "jsnum \<Rightarrow> nat \<times> rat" where
  "order_key x = (case x of NInf \<Rightarrow> (0, 0) | Num q \<Rightarrow> (1, q) | PInf \<Rightarrow> (2, 0) | NaN \<Rightarrow> (3, 0))"

text \<open>
  The type \<open>jsnum\<close> has a place for every rational. The Number values are \<^verbatim>\<open>NaN\<close>, the
  infinities and the rationals that rounding leaves alone (\<open>js_number\<close>); the finite ones
  are those \<^verbatim>\<open>Number.isFinite\<close> accepts (\<open>is_finite\<close>).
\<close>

definition js_number :: "jsnum \<Rightarrow> bool" where
  "js_number x = (case x of Num q \<Rightarrow> to_binary64 q = Num q | _ \<Rightarrow> True)"

definition is_finite :: "jsnum \<Rightarrow> bool" where
  "is_finite x = (case x of Num q \<Rightarrow> to_binary64 q = Num q | _ \<Rightarrow> False)"

text \<open>A field whose \<^verbatim>\<open>order\<close>, \<^verbatim>\<open>tableRows\<close> and \<^verbatim>\<open>tableColumns\<close> are finite numbers where
  they are present: what the data model admits (an integer order, table dimensions that
  are integers from one on).\<close>

definition finite_numbers :: "ColumnConfig \<Rightarrow> bool" where
  "finite_numbers f \<longleftrightarrow>
     is_finite (order f)
     \<and> (case tableRows f of None \<Rightarrow> True | Some x \<Rightarrow> is_finite x)
     \<and> (case tableColumns f of None \<Rightarrow> True | Some x \<Rightarrow> is_finite x)"

text \<open>
  The grid \<^verbatim>\<open>_setTableCell(r, c, v)\<close> leaves when the rows it creates have \<open>n\<close> cells: the
  closed form of its two loops and the assignment.
\<close>

definition grown_grid :: "nat \<Rightarrow> string list list \<Rightarrow> nat \<Rightarrow> nat \<Rightarrow> string \<Rightarrow> string list list" where
  "grown_grid n g r c v =
     (let g' = g @ replicate (Suc r - length g) (replicate n []);
          row = g' ! r @ replicate (Suc c - length (g' ! r)) []
      in g'[r := row[c := v]])"

text \<open>
  The states the builder can be in. Of all its handlers only the ones named below assign
  \<^verbatim>\<open>columns\<close>, \<^verbatim>\<open>tableRows\<close>, \<^verbatim>\<open>tableColumns\<close>, \<^verbatim>\<open>tableHeaders\<close> or \<^verbatim>\<open>tableColumnDefs\<close>;
  the rule \<open>other\<close> stands for the rest (\<^verbatim>\<open>_setTableCell\<close> among them), which leave the
  five alone. The two "Number of Rows" boxes are \<^verbatim>\<open>type="number"\<close>: what such a box hands
  to \<^verbatim>\<open>onChange\<close> is the empty string or a numeral, and all that is used of it here is
  that \<^verbatim>\<open>Number\<close> of it is not \<^verbatim>\<open>NaN\<close>.
\<close>

inductive reachable :: "NewFormState \<Rightarrow> bool" where
  init: "reachable initial_state"
| rows: "reachable s \<Longrightarrow> Number_js v \<noteq> NaN \<Longrightarrow> reachable (setTableRows v s)"
| columns_htmltable: "reachable s \<Longrightarrow> reachable (setTableColumns_htmltable v s)"
| columns_htmlrender: "reachable s \<Longrightarrow> setTableColumns_htmlrender v s = Inr s' \<Longrightarrow> reachable s'"
| add_header: "reachable s \<Longrightarrow> reachable (addTableHeader s)"
| remove_header: "reachable s \<Longrightarrow> reachable (removeTableHeader index s)"
| add_column: "reachable s \<Longrightarrow> addColumn s = Inr s' \<Longrightarrow> reachable s'"
| submit: "reachable s \<Longrightarrow> submitForm s = Inr (item, s') \<Longrightarrow> reachable s'"
| other: "reachable s \<Longrightarrow> columns s' = columns s \<Longrightarrow> st_tableRows s' = st_tableRows s \<Longrightarrow>
          st_tableColumns s' = st_tableColumns s \<Longrightarrow>
          st_tableHeaders s' = st_tableHeaders s \<Longrightarrow>
          st_tableColumnDefs s' = st_tableColumnDefs s \<Longrightarrow> reachable s'"

section \<open>Properties of rounding to binary64\<close>

lemma binary64_scale_pos [simp]: "0 < binary64_scale"
  by (simp add: binary64_scale_def)

lemma binary64_scale_nonzero [simp]: "binary64_scale \<noteq> 0"
  by (simp add: binary64_scale_def)

lemma binary64_scale_nonneg [simp]: "0 \<le> binary64_scale"
  by (simp add: binary64_scale_def)

lemma binary64_scale_not_neg [simp]: "\<not> binary64_scale < 0"
  by (simp add: binary64_scale_def not_less)

lemma binary64_limit_pos [simp]: "\<not> binary64_limit \<le> 0"
  by (simp add: binary64_limit_def not_le)

lemma binary64_scale_of_nat: "binary64_scale = of_nat (2 ^ 1074)"
  by (simp only: binary64_scale_def of_nat_power of_nat_numeral)

lemma safe_below_limit: "(of_nat n :: rat) \<le> 2 ^ 53 \<Longrightarrow> of_nat n < binary64_limit"
proof -
  assume "(of_nat n :: rat) \<le> 2 ^ 53"
  also have "(2 ^ 53 :: rat) < 2 ^ 1024"
    by (rule power_strict_increasing) simp_all
  finally show ?thesis
    by (simp only: binary64_limit_def)
qed

lemma round_half_even_of_int [simp]: "round_half_even (of_int n) = n"
  by (simp add: round_half_even_def)

lemma round_half_even_of_nat [simp]: "round_half_even (of_nat n) = int n"
  using round_half_even_of_int [of "int n"] by simp

lemma round_half_even_lower: "\<lfloor>x\<rfloor> \<le> round_half_even x"
  by (simp add: round_half_even_def Let_def)

lemma round_half_even_ge: "of_int n \<le> x \<Longrightarrow> n \<le> round_half_even x"
  using round_half_even_lower [of x] le_floor_iff [of n x] by linarith

lemma round_half_even_le:
  assumes "x \<le> of_int n"
  shows "round_half_even x \<le> n"
proof (cases "x = of_int n")
  case True
  then show ?thesis by simp
next
  case False
  with assms have "x < of_int n" by simp
  then have "\<lfloor>x\<rfloor> < n" by (simp add: floor_less_iff)
  then show ?thesis
    by (simp add: round_half_even_def Let_def)
qed

lemma floorlog_eqI: "0 < w \<Longrightarrow> 2 ^ (w - 1) \<le> n \<Longrightarrow> n < 2 ^ w \<Longrightarrow> floorlog 2 n = w"
  by (intro antisym floorlog_leI floorlog_geI) simp_all

text \<open>A significand of at most 53 bits is kept as it is.\<close>

lemma to_binary64_exact:
  fixes m j :: nat
  assumes x: "\<bar>x\<bar> * binary64_scale = of_nat (m * 2 ^ j)" and m: "m < 2 ^ 53"
    and b: "\<bar>x\<bar> < binary64_limit"
  shows "to_binary64 x = Num x"
proof -
  define y where "y = \<bar>x\<bar> * binary64_scale"
  define k where "k = floorlog 2 (nat \<lfloor>y\<rfloor>) - 53"
  have y: "y = of_nat (m * 2 ^ j)" unfolding y_def by (rule x)
  have fl: "nat \<lfloor>y\<rfloor> = m * 2 ^ j" by (simp only: y floor_of_nat nat_int)
  have "m * 2 ^ j < 2 ^ (53 + j)" using m by (simp add: power_add)
  then have "floorlog 2 (m * 2 ^ j) \<le> 53 + j" by (intro floorlog_leI) simp_all
  then have "k \<le> j" unfolding k_def fl by simp
  then obtain d where d: "j = k + d" using le_Suc_ex by blast
  have "y / 2 ^ k = of_nat (m * 2 ^ d)" unfolding y d by (simp add: power_add)
  then have "round_half_even (y / 2 ^ k) = int (m * 2 ^ d)" by (simp only: round_half_even_of_nat)
  then have "of_int (round_half_even (y / 2 ^ k)) * 2 ^ k = y" unfolding y d by (simp add: power_add)
  then have r: "of_int (round_half_even (y / 2 ^ k)) * 2 ^ k / binary64_scale = \<bar>x\<bar>"
    unfolding y_def by simp
  have "to_binary64 x =
      (if binary64_limit \<le> of_int (round_half_even (y / 2 ^ k)) * 2 ^ k / binary64_scale
       then (if x < 0 then NInf else PInf)
       else Num (if x < 0 then - (of_int (round_half_even (y / 2 ^ k)) * 2 ^ k / binary64_scale)
                 else of_int (round_half_even (y / 2 ^ k)) * 2 ^ k / binary64_scale))"
    unfolding to_binary64_def Let_def y_def k_def ..
  also have "\<dots> = Num x" unfolding r using b by (auto simp: abs_if)
  finally show ?thesis .
qed

text \<open>The shape of every result.\<close>

lemma to_binary64_shape:
  obtains (inf) "to_binary64 x = (if x < 0 then NInf else PInf)"
  | (fin) m k where
      "to_binary64 x = Num ((if x < 0 then - 1 else 1) * (of_nat m * 2 ^ k / binary64_scale))"
      and "m \<le> 2 ^ 53" and "of_nat m * 2 ^ k / binary64_scale < binary64_limit"
      and "1 \<le> \<bar>x\<bar> * binary64_scale \<Longrightarrow> 1 \<le> m"
proof -
  define y where "y = \<bar>x\<bar> * binary64_scale"
  define n where "n = nat \<lfloor>y\<rfloor>"
  define k where "k = floorlog 2 n - 53"
  define z where "z = round_half_even (y / 2 ^ k)"
  define r :: rat where "r = of_int z * 2 ^ k / binary64_scale"
  have y0: "0 \<le> y" by (simp add: y_def)
  have tb: "to_binary64 x = (if binary64_limit \<le> r then (if x < 0 then NInf else PInf)
                              else Num (if x < 0 then - r else r))"
    unfolding to_binary64_def Let_def r_def z_def k_def n_def y_def ..
  have ylt: "y < of_nat n + 1"
    using y0 by (simp add: n_def) linarith
  have nle: "of_nat n \<le> y"
    using y0 by (simp add: n_def)
  have bound: "y / 2 ^ k \<le> 2 ^ 53"
  proof (cases "n = 0")
    case True
    then have "k = 0" by (simp add: k_def floorlog_def)
    moreover from True ylt have "y < 1" by simp
    moreover have "(1::rat) \<le> 2 ^ 53" by (rule one_le_power) simp
    ultimately show ?thesis by simp
  next
    case False
    then have "n < 2 ^ floorlog 2 n"
      using floorlog_bounds [of n 2] by simp
    also have "\<dots> \<le> 2 ^ (53 + k)"
      by (intro power_increasing) (simp_all add: k_def)
    finally have "n + 1 \<le> 2 ^ (53 + k)" by simp
    then have "(of_nat (n + 1) :: rat) \<le> of_nat (2 ^ (53 + k))"
      by (rule of_nat_mono)
    then have "(of_nat n + 1 :: rat) \<le> 2 ^ 53 * 2 ^ k"
      by (simp add: power_add)
    with ylt have "y \<le> 2 ^ 53 * 2 ^ k" by simp
    then show ?thesis
      by (simp add: divide_le_eq)
  qed
  have z0: "0 \<le> z"
    unfolding z_def using y0 by (intro round_half_even_ge) simp
  have "y / 2 ^ k \<le> of_int (2 ^ 53)"
    using bound by simp
  then have z53: "z \<le> 2 ^ 53"
    unfolding z_def by (rule round_half_even_le)
  have z1: "1 \<le> z" if "1 \<le> y"
  proof -
    have "1 \<le> y / 2 ^ k"
    proof (cases "k = 0")
      case True
      with that show ?thesis by simp
    next
      case False
      then have "54 \<le> floorlog 2 n" by (simp add: k_def)
      then have fl: "floorlog 2 n = 53 + k" by (simp add: k_def)
      have "0 < floorlog 2 n" using fl by simp
      then have "2 ^ (floorlog 2 n - 1) \<le> n"
        by (intro floorlog_geD) simp_all
      then have "2 ^ (52 + k) \<le> n" by (simp add: fl)
      then have "(of_nat (2 ^ (52 + k)) :: rat) \<le> of_nat n"
        by (rule of_nat_mono)
      with nle have "(2 ^ 52 * 2 ^ k :: rat) \<le> y"
        by (simp add: power_add)
      then have "(2 ^ 52 :: rat) \<le> y / 2 ^ k"
        by (simp add: le_divide_eq)
      moreover have "(1::rat) \<le> 2 ^ 52" by (rule one_le_power) simp
      ultimately show ?thesis by linarith
    qed
    then have "of_int 1 \<le> y / 2 ^ k" by simp
    then show ?thesis
      unfolding z_def by (rule round_half_even_ge)
  qed
  define m where "m = nat z"
  have zm: "(of_int z :: rat) = of_nat m"
    using z0 by (simp add: m_def)
  have r: "r = of_nat m * 2 ^ k / binary64_scale"
    by (simp add: r_def zm)
  show thesis
  proof (cases "binary64_limit \<le> r")
    case True
    then show ?thesis using tb inf by simp
  next
    case False
    have a: "to_binary64 x = Num ((if x < 0 then - 1 else 1) * (of_nat m * 2 ^ k / binary64_scale))"
      using tb False by (simp add: r)
    have b: "m \<le> 2 ^ 53"
      using z53 z0 by (simp add: m_def nat_le_iff)
    have c: "of_nat m * 2 ^ k / binary64_scale < binary64_limit"
      using False by (simp add: r)
    have d: "1 \<le> m" if "1 \<le> \<bar>x\<bar> * binary64_scale"
      using z1 that by (simp add: m_def y_def)
    from a b c d show ?thesis by (rule fin)
  qed
qed

lemma to_binary64_not_NaN [simp]: "to_binary64 x \<noteq> NaN"
  by (cases x rule: to_binary64_shape) (simp_all split: if_splits)

lemma to_binary64_0 [simp]: "to_binary64 0 = Num 0"
  by (simp add: to_binary64_def round_half_even_def floorlog_def)

text \<open>A binary64 value is a multiple of the least one.\<close>

lemma binary64_multiple:
  assumes "to_binary64 x = Num q"
  shows "\<exists>z::int. q * binary64_scale = of_int z"
proof (cases x rule: to_binary64_shape)
  case inf
  with assms show ?thesis by (simp split: if_splits)
next
  case (fin m k)
  with assms have "q = (if x < 0 then - 1 else 1) * (of_nat m * 2 ^ k / binary64_scale)"
    by simp
  then have "q * binary64_scale = of_int ((if x < 0 then - 1 else 1) * (int m * 2 ^ k))"
    by simp
  then show ?thesis ..
qed

text \<open>Rounding a binary64 value gives it back.\<close>

lemma to_binary64_idem:
  assumes "to_binary64 x = Num q"
  shows "to_binary64 q = Num q"
proof (cases x rule: to_binary64_shape)
  case inf
  with assms show ?thesis by (simp split: if_splits)
next
  case (fin m k)
  with assms have q: "q = (if x < 0 then - 1 else 1) * (of_nat m * 2 ^ k / binary64_scale)"
    by simp
  have "0 \<le> (of_nat m * 2 ^ k / binary64_scale :: rat)"
    by simp
  then have a: "\<bar>q\<bar> = of_nat m * 2 ^ k / binary64_scale"
    unfolding q by (simp add: abs_mult)
  then have s: "\<bar>q\<bar> * binary64_scale = of_nat (m * 2 ^ k)"
    by simp
  have b: "\<bar>q\<bar> < binary64_limit"
    using fin(3) by (simp only: a)
  show ?thesis
  proof (cases "m = 2 ^ 53")
    case True
    then have "\<bar>q\<bar> * binary64_scale = of_nat (1 * 2 ^ (53 + k))"
      using s by (simp add: power_add)
    then show ?thesis
      by (rule to_binary64_exact [where m = 1 and j = "53 + k", OF _ _ b]) simp
  next
    case False
    with fin(2) have "m < 2 ^ 53" by simp
    with s show ?thesis
      using b by (intro to_binary64_exact [where m = m and j = k])
  qed
qed

text \<open>The sign of a rounded value.\<close>

lemma to_binary64_positive:
  assumes "1 \<le> x * binary64_scale"
  shows "js_less (Num 0) (to_binary64 x)"
proof -
  have "0 < x * binary64_scale" using assms by linarith
  then have x: "0 < x" by (simp add: zero_less_mult_iff)
  then have ax: "1 \<le> \<bar>x\<bar> * binary64_scale" using assms by simp
  show ?thesis
  proof (cases x rule: to_binary64_shape)
    case inf
    with x show ?thesis by simp
  next
    case (fin m k)
    from fin(4) [OF ax] have "0 < (of_nat m * 2 ^ k / binary64_scale :: rat)"
      by simp
    with fin(1) x show ?thesis by simp
  qed
qed

lemma to_binary64_not_positive:
  assumes "x \<le> 0"
  shows "\<not> js_less (Num 0) (to_binary64 x)"
proof (cases "x = 0")
  case True
  then show ?thesis by simp
next
  case False
  with assms have x: "x < 0" by simp
  show ?thesis
  proof (cases x rule: to_binary64_shape)
    case inf
    with x show ?thesis by simp
  next
    case (fin m k)
    have "0 \<le> (of_nat m * 2 ^ k / binary64_scale :: rat)" by simp
    then have "\<not> 0 < - (of_nat m * 2 ^ k / binary64_scale :: rat)" by linarith
    with x show ?thesis unfolding fin(1) by simp
  qed
qed

lemma binary64_difference_sign:
  assumes "to_binary64 a = Num a" and "to_binary64 b = Num b"
  shows "js_less (Num 0) (to_binary64 (a - b)) \<longleftrightarrow> b < a"
proof (cases "b < a")
  case True
  from assms obtain za zb :: int
    where z: "a * binary64_scale = of_int za" "b * binary64_scale = of_int zb"
    using binary64_multiple by blast
  from True have "b * binary64_scale < a * binary64_scale" by simp
  then have "zb < za" unfolding z by simp
  then have "1 \<le> za - zb" by simp
  then have "(1::rat) \<le> of_int (za - zb)" by (simp only: of_int_1_le_iff)
  also have "\<dots> = (a - b) * binary64_scale" using z by (simp add: algebra_simps)
  finally show ?thesis
    using True to_binary64_positive by simp
next
  case False
  then have "a - b \<le> 0" by simp
  then show ?thesis
    using False to_binary64_not_positive by simp
qed

text \<open>Integers up to \<open>2^53\<close> in magnitude are binary64 values; \<open>2^53 + 1\<close> is not.\<close>

lemma to_binary64_of_int:
  assumes "\<bar>n\<bar> \<le> 2 ^ 53"
  shows "to_binary64 (of_int n) = Num (of_int n)"
proof -
  have m: "nat \<bar>n\<bar> \<le> 2 ^ 53" using assms by (simp add: nat_le_iff)
  have a: "\<bar>of_int n :: rat\<bar> = of_nat (nat \<bar>n\<bar>)" by simp
  have "(of_nat (nat \<bar>n\<bar>) :: rat) \<le> of_nat (2 ^ 53)" using m by (rule of_nat_mono)
  then have "(of_nat (nat \<bar>n\<bar>) :: rat) < binary64_limit"
    by (intro safe_below_limit) simp
  then have b: "\<bar>of_int n :: rat\<bar> < binary64_limit"
    by (simp only: a)
  show ?thesis
  proof (cases "nat \<bar>n\<bar> = 2 ^ 53")
    case True
    have "\<bar>of_int n :: rat\<bar> * binary64_scale = of_nat (1 * 2 ^ (53 + 1074))"
      unfolding a True binary64_scale_of_nat by (simp only: power_add of_nat_mult mult_1)
    then show ?thesis
      by (rule to_binary64_exact [where m = 1 and j = "53 + 1074", OF _ _ b]) simp
  next
    case False
    with m have "nat \<bar>n\<bar> < 2 ^ 53" by simp
    moreover have "\<bar>of_int n :: rat\<bar> * binary64_scale = of_nat (nat \<bar>n\<bar> * 2 ^ 1074)"
      unfolding a binary64_scale_of_nat by (simp only: of_nat_mult)
    ultimately show ?thesis using b by (intro to_binary64_exact)
  qed
qed

lemma to_binary64_of_nat: "n \<le> 2 ^ 53 \<Longrightarrow> to_binary64 (of_nat n) = Num (of_nat n)"
  using to_binary64_of_int [of "int n"] by simp

lemma to_binary64_small:
  "to_binary64 1 = Num 1" "to_binary64 2 = Num 2" "to_binary64 3 = Num 3" "to_binary64 4 = Num 4"
  using to_binary64_of_nat [of 1] to_binary64_of_nat [of 2] to_binary64_of_nat [of 3]
    to_binary64_of_nat [of 4]
  by simp_all

lemma to_binary64_tie: "to_binary64 9007199254740993 = Num 9007199254740992"
proof -
  define y :: rat where "y = \<bar>9007199254740993\<bar> * binary64_scale"
  have y: "y = of_nat (9007199254740993 * 2 ^ 1074)"
    unfolding y_def binary64_scale_of_nat by (simp only: of_nat_mult of_nat_numeral abs_numeral)
  have n: "nat \<lfloor>y\<rfloor> = 9007199254740993 * 2 ^ 1074"
    by (simp only: y floor_of_nat nat_int)
  have "floorlog 2 (9007199254740993 * 2 ^ 1074) = floorlog 2 9007199254740993 + 1074"
    by (rule floorlog_power) simp_all
  moreover have "floorlog 2 9007199254740993 = 54"
    by (rule floorlog_eqI) simp_all
  ultimately have k: "floorlog 2 (nat \<lfloor>y\<rfloor>) - 53 = 1075"
    by (simp only: n)
  have s: "binary64_scale * 2 = 2 ^ 1075"
    by (simp only: binary64_scale_def power_Suc2 [symmetric]) simp
  have "y / 2 ^ 1075 = 9007199254740993 * binary64_scale / (binary64_scale * 2)"
    unfolding y_def s by simp
  also have "\<dots> = 9007199254740993 / 2"
    by simp
  finally have d: "y / 2 ^ 1075 = 9007199254740993 / 2" .
  have fl: "\<lfloor>9007199254740993 / 2 :: rat\<rfloor> = 4503599627370496"
    by (rule floor_unique) simp_all
  have r: "round_half_even (9007199254740993 / 2) = 4503599627370496"
    by (simp add: round_half_even_def Let_def fl)
  have "(of_int 4503599627370496 * 2 ^ 1075 / binary64_scale :: rat)
          = 4503599627370496 * (binary64_scale * 2) / binary64_scale"
    unfolding s by simp
  also have "\<dots> = 9007199254740992"
    by simp
  finally have v: "(of_int 4503599627370496 * 2 ^ 1075 / binary64_scale :: rat) = 9007199254740992" .
  have l: "(9007199254740992 :: rat) < binary64_limit"
    using safe_below_limit [of 9007199254740992] by simp
  have "to_binary64 9007199254740993 =
      (if binary64_limit \<le> of_int (round_half_even (y / 2 ^ (floorlog 2 (nat \<lfloor>y\<rfloor>) - 53)))
             * 2 ^ (floorlog 2 (nat \<lfloor>y\<rfloor>) - 53) / binary64_scale
       then PInf
       else Num (of_int (round_half_even (y / 2 ^ (floorlog 2 (nat \<lfloor>y\<rfloor>) - 53)))
             * 2 ^ (floorlog 2 (nat \<lfloor>y\<rfloor>) - 53) / binary64_scale))"
    unfolding to_binary64_def Let_def y_def by simp
  also have "\<dots> = Num 9007199254740992"
    unfolding k d r v using l by simp
  finally show ?thesis .
qed


text \<open>A value of magnitude below half the least positive binary64 value is rounded to zero,
  and one that reaches \<open>2^1024\<close> to an infinity.\<close>

lemma to_binary64_underflow:
  assumes "\<bar>x\<bar> * binary64_scale < 1 / 2"
  shows "to_binary64 x = Num 0"
proof -
  define y where "y = \<bar>x\<bar> * binary64_scale"
  have y: "0 \<le> y" "y < 1 / 2"
    using assms by (simp_all add: y_def)
  then have fl: "\<lfloor>y\<rfloor> = 0"
    by (intro floor_unique) simp_all
  then have k: "floorlog 2 (nat \<lfloor>y\<rfloor>) - 53 = 0"
    by (simp add: floorlog_def)
  have r: "round_half_even y = 0"
    using y by (simp add: round_half_even_def Let_def fl)
  have "to_binary64 x =
      (if binary64_limit \<le> of_int (round_half_even (y / 2 ^ (floorlog 2 (nat \<lfloor>y\<rfloor>) - 53)))
             * 2 ^ (floorlog 2 (nat \<lfloor>y\<rfloor>) - 53) / binary64_scale
       then (if x < 0 then NInf else PInf)
       else Num (if x < 0
                 then - (of_int (round_half_even (y / 2 ^ (floorlog 2 (nat \<lfloor>y\<rfloor>) - 53)))
                         * 2 ^ (floorlog 2 (nat \<lfloor>y\<rfloor>) - 53) / binary64_scale)
                 else of_int (round_half_even (y / 2 ^ (floorlog 2 (nat \<lfloor>y\<rfloor>) - 53)))
                         * 2 ^ (floorlog 2 (nat \<lfloor>y\<rfloor>) - 53) / binary64_scale))"
    unfolding to_binary64_def Let_def y_def ..
  also have "\<dots> = Num 0"
    unfolding k by (simp add: r)
  finally show ?thesis .
qed

lemma to_binary64_overflow:
  assumes "binary64_limit \<le> \<bar>x\<bar>"
  shows "to_binary64 x = (if x < 0 then NInf else PInf)"
proof -
  define y where "y = \<bar>x\<bar> * binary64_scale"
  define n where "n = nat \<lfloor>y\<rfloor>"
  define k where "k = floorlog 2 n - 53"
  define z where "z = round_half_even (y / 2 ^ k)"
  have "binary64_limit * binary64_scale \<le> y"
    unfolding y_def using assms by (intro mult_right_mono) simp_all
  moreover have "binary64_limit * binary64_scale = of_nat (2 ^ 2098)"
    by (simp only: binary64_limit_def binary64_scale_def power_add [symmetric] of_nat_power
        of_nat_numeral) simp
  ultimately have big: "(of_nat (2 ^ 2098) :: rat) \<le> y"
    by simp
  then have "0 \<le> y"
    by (rule order_trans [rotated]) simp
  have "int (2 ^ 2098) \<le> \<lfloor>y\<rfloor>"
    using big by (simp only: le_floor_iff of_int_of_nat_eq)
  moreover have f0: "0 \<le> \<lfloor>y\<rfloor>"
    using \<open>0 \<le> y\<close> by simp
  ultimately have "2 ^ 2098 \<le> n"
    unfolding n_def by (simp only: le_nat_iff [OF f0])
  then have "2099 \<le> floorlog 2 n"
    by (intro floorlog_geI) simp_all
  then have fl: "floorlog 2 n = 53 + k" and k: "2046 \<le> k"
    by (simp_all add: k_def)
  have "0 < floorlog 2 n" using fl by simp
  then have "2 ^ (floorlog 2 n - 1) \<le> n"
    by (intro floorlog_geD) simp_all
  then have "2 ^ (52 + k) \<le> n" by (simp add: fl)
  then have "(of_nat (2 ^ (52 + k)) :: rat) \<le> of_nat n"
    by (rule of_nat_mono)
  also have "(of_nat n :: rat) \<le> y"
    using \<open>0 \<le> y\<close> by (simp add: n_def)
  finally have "(2 ^ 52 * 2 ^ k :: rat) \<le> y"
    by (simp add: power_add)
  then have "of_int (2 ^ 52) \<le> y / 2 ^ k"
    by (simp add: le_divide_eq)
  then have "2 ^ 52 \<le> z"
    unfolding z_def by (rule round_half_even_ge)
  then have "(of_int (2 ^ 52) :: rat) \<le> of_int z"
    by (simp only: of_int_le_iff)
  then have a: "(2 ^ 52 :: rat) * 2 ^ k \<le> of_int z * 2 ^ k"
    by (intro mult_right_mono) simp_all
  have "(2 ^ 2098 :: rat) \<le> 2 ^ (52 + k)"
    using k by (intro power_increasing) simp_all
  then have "(2 ^ 2098 :: rat) \<le> 2 ^ 52 * 2 ^ k"
    by (simp only: power_add)
  then have "(2 ^ 2098 :: rat) \<le> of_int z * 2 ^ k"
    using a by (rule order_trans)
  moreover have "(2 ^ 2098 :: rat) = binary64_limit * binary64_scale"
    by (simp only: binary64_limit_def binary64_scale_def power_add [symmetric]) simp
  ultimately have "binary64_limit * binary64_scale \<le> of_int z * 2 ^ k"
    by (simp only:)
  then have "binary64_limit \<le> of_int z * 2 ^ k / binary64_scale"
    by (simp add: le_divide_eq)
  then show ?thesis
    unfolding to_binary64_def Let_def z_def k_def n_def y_def by simp
qed

text \<open>Rounding commutes with the sign, and every number the operations produce is a
  Number value.\<close>

lemma to_binary64_minus: "to_binary64 (- x) = negate (to_binary64 x)"
proof (cases "x = 0")
  case True
  then show ?thesis by (simp add: negate_def)
next
  case False
  then show ?thesis
    by (cases "x < 0") (simp_all add: to_binary64_def Let_def negate_def)
qed

lemma js_number_simps [simp]:
  "js_number NaN" "js_number PInf" "js_number NInf" "js_number (Num 0)"
  by (simp_all add: js_number_def)

lemma js_number_to_binary64 [simp]: "js_number (to_binary64 x)"
  by (cases "to_binary64 x") (simp_all add: js_number_def to_binary64_idem)

lemma js_number_negate: "js_number x \<Longrightarrow> js_number (negate x)"
  by (cases x) (simp_all add: js_number_def negate_def to_binary64_minus)

lemma js_number_unsigned_decimal: "js_number (unsigned_decimal s)"
  by (simp add: unsigned_decimal_def Let_def split: option.splits)

lemma js_number_non_decimal: "non_decimal s = Some x \<Longrightarrow> js_number x"
  by (auto simp: non_decimal_def Let_def split: list.splits if_splits)

lemma js_number_Number_js: "js_number (Number_js s)"
  by (auto simp: Number_js_def Let_def js_number_unsigned_decimal js_number_negate
      js_number_non_decimal split: option.splits)

lemma js_number_js_add: "js_number (js_add a b)"
  by (cases a; cases b) simp_all

lemma is_finite_iff: "is_finite x \<longleftrightarrow> js_number x \<and> (\<exists>q. x = Num q)"
  by (cases x) (simp_all add: is_finite_def js_number_def)

section \<open>\<^verbatim>\<open>Number\<close> on decimal numerals\<close>

text \<open>The decimal numeral of a natural number is read by \<^verbatim>\<open>Number\<close> as that number
  rounded to binary64, which is the number itself up to \<open>2^53\<close>.\<close>

lemma digit_char: "d < 10 \<Longrightarrow> digit_val (''0123456789'' ! d) = Some d"
proof -
  assume "d < 10"
  then have "d = 0 \<or> d = 1 \<or> d = 2 \<or> d = 3 \<or> d = 4 \<or> d = 5 \<or> d = 6 \<or> d = 7 \<or> d = 8 \<or> d = 9"
    by arith
  then show ?thesis
    by (elim disjE) (simp_all add: digit_val_def)
qed

lemma is_digit_char: "d < 10 \<Longrightarrow> is_digit_in 10 (''0123456789'' ! d)"
  by (simp add: is_digit_in_def digit_char)

lemma digit_not_other:
  assumes "is_digit_in 10 ch"
  shows "\<not> is_space ch" and "ch \<noteq> CHR ''+''" and "ch \<noteq> CHR ''-''" and "ch \<noteq> CHR ''x''"
    and "ch \<noteq> CHR ''X''" and "ch \<noteq> CHR ''o''" and "ch \<noteq> CHR ''O''" and "ch \<noteq> CHR ''b''"
    and "ch \<noteq> CHR ''B''" and "ch \<noteq> CHR ''I''"
  using assms
  by (auto simp: is_digit_in_def digit_val_def is_space_def Let_def split: if_splits)

lemma string_of_nat_digits:
  "string_of_nat n \<noteq> [] \<and> list_all (is_digit_in 10) (string_of_nat n)"
proof (induction n rule: string_of_nat.induct)
  case (1 n)
  show ?case
  proof (cases "n < 10")
    case True
    then show ?thesis
      by (subst (1 2) string_of_nat.simps) (simp add: is_digit_char)
  next
    case False
    with 1 show ?thesis
      by (subst (1 2) string_of_nat.simps) (simp add: is_digit_char)
  qed
qed

lemma digits_value_snoc:
  "digits_value b (ds @ [ch]) = digits_value b ds * b + the (digit_val ch)"
  by (simp add: digits_value_def)

lemma digits_value_single: "digits_value b [ch] = the (digit_val ch)"
  by (simp add: digits_value_def)

lemma digits_value_string_of_nat: "digits_value 10 (string_of_nat n) = n"
proof (induction n rule: string_of_nat.induct)
  case (1 n)
  show ?case
  proof (cases "n < 10")
    case True
    then show ?thesis
      by (subst string_of_nat.simps) (simp add: digits_value_single digit_char)
  next
    case False
    with 1 show ?thesis
      by (subst string_of_nat.simps) (simp add: digits_value_snoc digit_char)
  qed
qed

lemma dropWhile_hd: "xs \<noteq> [] \<Longrightarrow> \<not> P (hd xs) \<Longrightarrow> dropWhile P xs = xs"
  by (cases xs) simp_all

lemma trim_digits:
  assumes "s \<noteq> []" and "list_all (is_digit_in 10) s"
  shows "trim s = s"
proof -
  from assms have "hd s \<in> set s" "last s \<in> set s"
    by simp_all
  with assms(2) have "is_digit_in 10 (hd s)" "is_digit_in 10 (last s)"
    by (simp_all only: list_all_iff)
  then have "\<not> is_space (hd s)" "\<not> is_space (last s)"
    by (simp_all only: digit_not_other(1) not_False_eq_True)
  with assms(1) have "dropWhile is_space s = s" "dropWhile is_space (rev s) = rev s"
    by (simp_all add: dropWhile_hd hd_rev)
  then show ?thesis
    by (simp only: trim_def rev_rev_ident)
qed

lemma non_decimal_digits:
  assumes "list_all (is_digit_in 10) s"
  shows "non_decimal s = None"
proof (cases s)
  case Nil
  then show ?thesis by (simp add: non_decimal_def)
next
  case (Cons z r)
  show ?thesis
  proof (cases r)
    case Nil
    with Cons show ?thesis by (simp add: non_decimal_def)
  next
    case (Cons k ds)
    with assms \<open>s = z # r\<close> have "is_digit_in 10 k" by simp
    note digit_not_other [OF this]
    with Cons \<open>s = z # r\<close> show ?thesis
      by (simp add: non_decimal_def)
  qed
qed

lemma unsigned_decimal_digits:
  assumes "s \<noteq> []" and "list_all (is_digit_in 10) s"
  shows "unsigned_decimal s = to_binary64 (of_nat (digits_value 10 s))"
proof -
  from assms have "hd s \<in> set s" by simp
  with assms(2) have "is_digit_in 10 (hd s)"
    by (simp only: list_all_iff)
  then have "hd s \<noteq> CHR ''I''"
    by (rule digit_not_other)
  then have i: "s \<noteq> ''Infinity''"
    by auto
  from assms(2) have t: "takeWhile (is_digit_in 10) s = s" "dropWhile (is_digit_in 10) s = []"
    by (simp_all add: list_all_iff)
  show ?thesis
    unfolding unsigned_decimal_def Let_def t
    using i assms(1) by (simp add: exponent_part_def digits_value_def)
qed

lemma Number_js_string_of_nat: "Number_js (string_of_nat n) = to_binary64 (of_nat n)"
proof -
  let ?s = "string_of_nat n"
  have d: "?s \<noteq> []" "list_all (is_digit_in 10) ?s"
    using string_of_nat_digits [of n] by simp_all
  then have "hd ?s \<in> set ?s" by simp
  with d(2) have "is_digit_in 10 (hd ?s)"
    by (simp only: list_all_iff)
  then have h: "hd ?s \<noteq> CHR ''+''" "hd ?s \<noteq> CHR ''-''"
    by (rule digit_not_other)+
  show ?thesis
    unfolding Number_js_def Let_def trim_digits [OF d] non_decimal_digits [OF d(2)]
      unsigned_decimal_digits [OF d] digits_value_string_of_nat
    using d(1) h by simp
qed

lemma Number_js_string_of_nat_safe:
  "n \<le> 2 ^ 53 \<Longrightarrow> Number_js (string_of_nat n) = Num (of_nat n)"
  by (simp add: Number_js_string_of_nat to_binary64_of_nat)

lemmas Number_js_defs = Number_js_def trim_def is_space_def unsigned_decimal_def non_decimal_def
  exponent_part_def is_digit_in_def digit_val_def digits_value_def negate_def

lemma Number_js_empty: "Number_js [] = Num 0"
  by (simp add: Number_js_def trim_def)

lemma Number_js_1: "Number_js ''1'' = Num 1"
  by (simp add: Number_js_defs to_binary64_small)

lemma Number_js_2: "Number_js ''2'' = Num 2"
  by (simp add: Number_js_defs to_binary64_small)

lemma Number_js_3: "Number_js ''3'' = Num 3"
  by (simp add: Number_js_defs to_binary64_small)

text \<open>Beyond \<open>2^53\<close> a numeral is not always read as its value, and a numeral for a very large
  or very small value is read as \<^verbatim>\<open>Infinity\<close> or as zero.\<close>

lemma Number_js_2_53: "Number_js ''9007199254740992'' = Num 9007199254740992"
  using to_binary64_of_nat [of 9007199254740992] by (simp add: Number_js_defs)

lemma Number_js_2_53_plus_1: "Number_js ''9007199254740993'' = Num 9007199254740992"
  by (simp add: Number_js_defs to_binary64_tie)

lemma Number_js_1e309: "Number_js ''1e309'' = PInf"
proof -
  have "binary64_limit \<le> \<bar>10 ^ 309\<bar>"
    by (simp add: binary64_limit_def)
  from to_binary64_overflow [OF this] show ?thesis
    by (simp add: Number_js_defs)
qed

lemma Number_js_1e_324: "Number_js ''1e-324'' = Num 0"
proof -
  have "\<bar>1 / 10 ^ 324\<bar> * binary64_scale < 1 / 2"
    by (simp add: binary64_scale_def)
  from to_binary64_underflow [OF this] show ?thesis
    by (simp add: Number_js_defs)
qed

section \<open>Properties of \<^verbatim>\<open>Array.from\<close>\<close>

lemma all_or_error_Inr: "all_or_error (map (\<lambda>i. Inr (f i)) xs) = Inr (map f xs)"
  by (induction xs) simp_all

lemma Array_from_Inr:
  "Array_from x (\<lambda>i. Inr (f i))
     = (if 2 ^ 32 - 1 < ToLength x then Inl RangeError else Inr (map f [0..<ToLength x]))"
  by (simp add: Array_from_def all_or_error_Inr)

lemma Array_from_empty_strings:
  "Array_from x (\<lambda>_. Inr [])
     = (if 2 ^ 32 - 1 < ToLength x then Inl RangeError else Inr (replicate (ToLength x) []))"
  by (simp add: Array_from_Inr map_replicate_const)

lemma Array_from_error: "Array_from x f = Inl e \<Longrightarrow> e = RangeError"
  by (cases e) simp

lemma ToLength_of_nat: "n \<le> 2 ^ 53 - 1 \<Longrightarrow> ToLength (Num (of_nat n)) = n"
  by (simp add: ToLength_def)

section \<open>Properties of \<^verbatim>\<open>_setTableCell\<close>\<close>

lemma ensure_rows_eq:
  "ensure_rows tc c r d =
     (if length d \<le> r then
        (if 2 ^ 32 - 1 < ToLength (new_row_length tc c) then Inl RangeError
         else Inr (d @ replicate (Suc r - length d)
                         (replicate (ToLength (new_row_length tc c)) [])))
      else Inr d)"
proof (induction tc c r d rule: ensure_rows.induct)
  case (1 tc c r d)
  let ?n = "ToLength (new_row_length tc c)"
  show ?case
  proof (cases "length d \<le> r")
    case False
    then show ?thesis by (subst ensure_rows.simps) simp
  next
    case le: True
    show ?thesis
    proof (cases "2 ^ 32 - 1 < ?n")
      case True
      with le show ?thesis
        by (subst ensure_rows.simps) (simp add: Array_from_empty_strings)
    next
      case False
      then have a: "Array_from (new_row_length tc c) (\<lambda>_. Inr []) = Inr (replicate ?n [])"
        by (simp add: Array_from_empty_strings)
      from le have s: "Suc r - length d = Suc (r - length d)" by simp
      have "ensure_rows tc c r d = ensure_rows tc c r (d @ [replicate ?n []])"
        using le by (subst ensure_rows.simps) (simp add: a)
      also have "\<dots> = Inr (d @ replicate (Suc r - length d) (replicate ?n []))"
        using 1 [OF le a] False le by (simp add: s replicate_app_Cons_same)
      finally show ?thesis
        using le False by simp
    qed
  qed
qed

lemma ensure_columns_eq: "ensure_columns c row = row @ replicate (Suc c - length row) []"
proof (induction c row rule: ensure_columns.induct)
  case (1 c row)
  show ?case
  proof (cases "length row \<le> c")
    case True
    then have "Suc c - length row = Suc (c - length row)" by simp
    with True 1 show ?thesis
      by (subst ensure_columns.simps) (simp add: replicate_app_Cons_same)
  next
    case False
    then show ?thesis by (subst ensure_columns.simps) simp
  qed
qed

text \<open>The call throws when it has to create a row that is too long for an array, and
  leaves the grid of the closed form otherwise.\<close>

lemma setTableCell_eq:
  "setTableCell s r c v =
     (if length (st_tableData s) \<le> r
         \<and> 2 ^ 32 - 1 < ToLength (new_row_length (st_tableColumns s) c)
      then Inl RangeError
      else Inr (s\<lparr> st_tableData :=
                  grown_grid (ToLength (new_row_length (st_tableColumns s) c))
                    (st_tableData s) r c v \<rparr>))"
  by (simp add: setTableCell_def Let_def ensure_rows_eq ensure_columns_eq grown_grid_def)

lemma length_grown_grid: "length (grown_grid n g r c v) = max (length g) (Suc r)"
  by (simp add: grown_grid_def Let_def)

lemma grown_grid_old_row:
  "i < length g \<Longrightarrow> i \<noteq> r \<Longrightarrow> grown_grid n g r c v ! i = g ! i"
  by (simp add: grown_grid_def Let_def nth_append)

lemma grown_grid_new_row:
  "length g \<le> i \<Longrightarrow> i < r \<Longrightarrow> grown_grid n g r c v ! i = replicate n []"
  by (simp add: grown_grid_def Let_def nth_append)

lemma grown_grid_target_old:
  "r < length g \<Longrightarrow>
     grown_grid n g r c v ! r = (g ! r @ replicate (Suc c - length (g ! r)) [])[c := v]"
  by (simp add: grown_grid_def Let_def nth_append)

lemma replicate_pad: "replicate n x @ replicate (Suc c - n) x = replicate (max n (Suc c)) x"
  by (simp add: replicate_add [symmetric] max_def del: replicate_add)

lemma update_replicate_other: "j < n \<Longrightarrow> j \<noteq> c \<Longrightarrow> (replicate n x)[c := v] ! j = x"
  by simp

lemma grown_grid_target_new:
  "length g \<le> r \<Longrightarrow> grown_grid n g r c v ! r = (replicate (max n (Suc c)) [])[c := v]"
  by (simp add: grown_grid_def Let_def nth_append replicate_pad)

lemma grown_grid_target_cell:
  "grown_grid n g r c v ! r ! c = v \<and> Suc c \<le> length (grown_grid n g r c v ! r)"
proof (cases "r < length g")
  case True
  then show ?thesis by (simp add: grown_grid_target_old)
next
  case False
  then show ?thesis by (simp add: grown_grid_target_new)
qed

text \<open>Every cell of the old grid but \<open>(r, c)\<close> is kept, and every other cell but \<open>(r, c)\<close>
  is empty, whatever the length of the rows created.\<close>

lemma grown_grid_old_cell:
  assumes "i < length g" and "j < length (g ! i)" and "i \<noteq> r \<or> j \<noteq> c"
  shows "i < length (grown_grid n g r c v) \<and> j < length (grown_grid n g r c v ! i)
     \<and> grown_grid n g r c v ! i ! j = g ! i ! j"
proof (cases "i = r")
  case True
  with assms have "j \<noteq> c" by simp
  with assms True show ?thesis
    by (simp add: length_grown_grid grown_grid_target_old nth_append)
next
  case False
  with assms show ?thesis
    by (simp add: length_grown_grid grown_grid_old_row)
qed

lemma grown_grid_new_cell:
  assumes "i < length (grown_grid n g r c v)" and "j < length (grown_grid n g r c v ! i)"
    and "\<not> (i < length g \<and> j < length (g ! i))" and "i \<noteq> r \<or> j \<noteq> c"
  shows "grown_grid n g r c v ! i ! j = []"
proof (cases "i = r")
  case True
  with assms have jc: "j \<noteq> c" by simp
  show ?thesis
  proof (cases "r < length g")
    case True
    with assms \<open>i = r\<close> jc show ?thesis
      by (simp add: grown_grid_target_old nth_append)
  next
    case False
    with assms \<open>i = r\<close> jc show ?thesis
      by (simp add: grown_grid_target_new)
  qed
next
  case False
  show ?thesis
  proof (cases "i < length g")
    case True
    with assms False show ?thesis
      by (simp add: grown_grid_old_row)
  next
    case False
    with assms \<open>i \<noteq> r\<close> have "length g \<le> i" "i < r"
      by (simp_all add: length_grown_grid)
    with assms show ?thesis
      by (simp add: grown_grid_new_row)
  qed
qed

text \<open>
  The length of the rows a call creates. The grid of inputs is drawn for the positions
  \<^verbatim>\<open>Array.from({ length: Number(this.state.tableColumns) })\<close> gives, so a call from the
  grid has \<open>c\<close> below \<open>n = ToLength (Number tableColumns)\<close>, and \<open>n\<close> is a possible length
  of an array. Then, and also when \<^verbatim>\<open>Number(tableColumns)\<close> is falsy, the operand
  \<^verbatim>\<open>Number(tableColumns) || (c + 1)\<close> is the greater of \<open>n\<close> and \<open>c + 1\<close>.
\<close>

lemma js_add_1: "c + 1 \<le> 2 ^ 53 \<Longrightarrow> js_add (Num (of_nat c)) (Num 1) = Num (of_nat (c + 1))"
  using to_binary64_of_nat [of "c + 1"] by (simp add: add.commute)

lemma new_row_length_max:
  assumes n: "ToLength (Number_js tc) = n" and c: "c < n \<or> \<not> truthy_num (Number_js tc)"
    and m: "max n (c + 1) \<le> 2 ^ 32 - 1"
  shows "ToLength (new_row_length tc c) = max n (c + 1)"
proof (cases "truthy_num (Number_js tc)")
  case True
  with c have "c < n" by simp
  with True n show ?thesis
    by (simp add: new_row_length_def max_def)
next
  case False
  then have "n = 0"
    using n by (auto simp: truthy_num_def ToLength_def)
  moreover from m have b: "c + 1 \<le> 2 ^ 53" "c + 1 \<le> 2 ^ 53 - 1"
    by simp_all
  moreover have "new_row_length tc c = Num (of_nat (c + 1))"
    using False js_add_1 [OF b(1)] by (simp only: new_row_length_def if_False)
  ultimately show ?thesis
    using ToLength_of_nat [OF b(2)] by simp
qed

lemma new_row_length_3: "Number_js tc = Num 3 \<Longrightarrow> ToLength (new_row_length tc c) = 3"
  by (simp add: new_row_length_def truthy_num_def ToLength_def)

text \<open>
  C4. A call \<^verbatim>\<open>_setTableCell(r, c, v)\<close> from the grid of inputs, which has \<open>n\<close> columns and
  \<open>c\<close> among them (or any call while \<^verbatim>\<open>Number(tableColumns)\<close> is falsy, \<open>n\<close> then being
  zero), returns; it grows the pending grid to \<open>r + 1\<close> rows when it is shorter and leaves
  its length alone otherwise; every row it creates has the greater of \<open>n\<close> and \<open>c + 1\<close>
  cells, all empty strings; the target row, when it exists, is padded with empty strings
  to at least \<open>c + 1\<close> cells; then \<open>v\<close> is stored at \<open>(r, c)\<close>. On an empty grid with
  \<^verbatim>\<open>tableColumns = 3\<close>, for every \<open>r\<close> and \<open>c\<close>, the call returns, row \<open>r\<close> has
  \<open>max 3 (c + 1)\<close> cells, every cell of the grid other than \<open>(r, c)\<close> is the empty string
  and cell \<open>(r, c)\<close> is \<open>v\<close>.
\<close>
theorem setTableCell_lazy_grow:
  "(ToLength (Number_js (st_tableColumns s)) = n
      \<and> (c < n \<or> \<not> truthy_num (Number_js (st_tableColumns s)))
      \<and> max n (c + 1) \<le> 2 ^ 32 - 1 \<longrightarrow>
      (\<exists>s'. setTableCell s r c v = Inr s'
         \<and> length (st_tableData s') = max (length (st_tableData s)) (r + 1)
         \<and> (\<forall>i. length (st_tableData s) \<le> i \<and> i < r \<longrightarrow>
                st_tableData s' ! i = replicate (max n (c + 1)) [])
         \<and> (length (st_tableData s) \<le> r \<longrightarrow>
                st_tableData s' ! r = (replicate (max n (c + 1)) [])[c := v])
         \<and> (r < length (st_tableData s) \<longrightarrow>
                st_tableData s' ! r
                  = (st_tableData s ! r @ replicate (c + 1 - length (st_tableData s ! r)) [])[c := v])
         \<and> c + 1 \<le> length (st_tableData s' ! r)
         \<and> st_tableData s' ! r ! c = v))
   \<and> (st_tableData s = [] \<and> Number_js (st_tableColumns s) = Num 3 \<longrightarrow>
      (\<exists>s'. setTableCell s r c v = Inr s'
         \<and> length (st_tableData s') = r + 1
         \<and> (\<forall>i. i < r \<longrightarrow> st_tableData s' ! i = [[], [], []])
         \<and> length (st_tableData s' ! r) = max 3 (c + 1)
         \<and> c + 1 \<le> length (st_tableData s' ! r)
         \<and> (\<forall>i j. i < length (st_tableData s') \<and> j < length (st_tableData s' ! i)
                  \<and> (i \<noteq> r \<or> j \<noteq> c) \<longrightarrow> st_tableData s' ! i ! j = [])
         \<and> st_tableData s' ! r ! c = v))"
proof -
  let ?g = "st_tableData s" and ?tc = "st_tableColumns s"
  have general: "\<exists>s'. setTableCell s r c v = Inr s'
         \<and> length (st_tableData s') = max (length ?g) (r + 1)
         \<and> (\<forall>i. length ?g \<le> i \<and> i < r \<longrightarrow> st_tableData s' ! i = replicate (max n (c + 1)) [])
         \<and> (length ?g \<le> r \<longrightarrow> st_tableData s' ! r = (replicate (max n (c + 1)) [])[c := v])
         \<and> (r < length ?g \<longrightarrow>
                st_tableData s' ! r = (?g ! r @ replicate (c + 1 - length (?g ! r)) [])[c := v])
         \<and> c + 1 \<le> length (st_tableData s' ! r)
         \<and> st_tableData s' ! r ! c = v"
    if h: "ToLength (Number_js ?tc) = n" "c < n \<or> \<not> truthy_num (Number_js ?tc)"
      "max n (c + 1) \<le> 2 ^ 32 - 1"
  proof -
    let ?m = "max n (c + 1)"
    let ?g' = "grown_grid ?m ?g r c v"
    have l: "ToLength (new_row_length ?tc c) = ?m"
      using h by (rule new_row_length_max)
    have nb: "\<not> (2 ^ 32 - 1 < ?m)"
      using h(3) by (simp only: not_less)
    have ok: "setTableCell s r c v = Inr (s\<lparr> st_tableData := ?g' \<rparr>)"
      by (simp only: setTableCell_eq l nb) simp
    have 1: "length ?g' = max (length ?g) (r + 1)"
      by (simp add: length_grown_grid)
    have 2: "\<forall>i. length ?g \<le> i \<and> i < r \<longrightarrow> ?g' ! i = replicate ?m []"
      by (simp add: grown_grid_new_row)
    have "max ?m (Suc c) = ?m" by simp
    then have 3: "length ?g \<le> r \<longrightarrow> ?g' ! r = (replicate ?m [])[c := v]"
      by (simp add: grown_grid_target_new)
    have 4: "r < length ?g \<longrightarrow> ?g' ! r = (?g ! r @ replicate (c + 1 - length (?g ! r)) [])[c := v]"
      by (simp add: grown_grid_target_old)
    have 5: "c + 1 \<le> length (?g' ! r) \<and> ?g' ! r ! c = v"
      using grown_grid_target_cell [of ?m ?g r c v] by simp
    have "length (st_tableData (s\<lparr> st_tableData := ?g' \<rparr>)) = max (length ?g) (r + 1)
         \<and> (\<forall>i. length ?g \<le> i \<and> i < r \<longrightarrow>
                st_tableData (s\<lparr> st_tableData := ?g' \<rparr>) ! i = replicate ?m [])
         \<and> (length ?g \<le> r \<longrightarrow>
                st_tableData (s\<lparr> st_tableData := ?g' \<rparr>) ! r = (replicate ?m [])[c := v])
         \<and> (r < length ?g \<longrightarrow>
                st_tableData (s\<lparr> st_tableData := ?g' \<rparr>) ! r
                  = (?g ! r @ replicate (c + 1 - length (?g ! r)) [])[c := v])
         \<and> c + 1 \<le> length (st_tableData (s\<lparr> st_tableData := ?g' \<rparr>) ! r)
         \<and> st_tableData (s\<lparr> st_tableData := ?g' \<rparr>) ! r ! c = v"
      using 1 2 3 4 5 by simp
    with ok show ?thesis by blast
  qed
  have three: "\<exists>s'. setTableCell s r c v = Inr s'
         \<and> length (st_tableData s') = r + 1
         \<and> (\<forall>i. i < r \<longrightarrow> st_tableData s' ! i = [[], [], []])
         \<and> length (st_tableData s' ! r) = max 3 (c + 1)
         \<and> c + 1 \<le> length (st_tableData s' ! r)
         \<and> (\<forall>i j. i < length (st_tableData s') \<and> j < length (st_tableData s' ! i)
                  \<and> (i \<noteq> r \<or> j \<noteq> c) \<longrightarrow> st_tableData s' ! i ! j = [])
         \<and> st_tableData s' ! r ! c = v"
    if e: "?g = []" and t: "Number_js ?tc = Num 3"
  proof -
    let ?g' = "grown_grid 3 [] r c v"
    have l: "ToLength (new_row_length ?tc c) = 3"
      using t by (rule new_row_length_3)
    have ok: "setTableCell s r c v = Inr (s\<lparr> st_tableData := ?g' \<rparr>)"
      by (simp add: setTableCell_eq l e)
    have 1: "length ?g' = r + 1"
      by (simp add: length_grown_grid)
    have "replicate 3 ([]::string) = [[], [], []]"
      by (simp add: numeral_3_eq_3)
    then have 2: "\<forall>i. i < r \<longrightarrow> ?g' ! i = [[], [], []]"
      by (simp add: grown_grid_new_row)
    have row: "?g' ! r = (replicate (max 3 (Suc c)) [])[c := v]"
      by (simp add: grown_grid_target_new)
    then have 3: "length (?g' ! r) = max 3 (c + 1)"
      by (simp only: length_list_update length_replicate Suc_eq_plus1)
    have 4: "c + 1 \<le> length (?g' ! r) \<and> ?g' ! r ! c = v"
      using grown_grid_target_cell [of 3 "[]" r c v] by simp
    have 5: "?g' ! i ! j = []"
      if "i < length ?g'" "j < length (?g' ! i)" "i \<noteq> r \<or> j \<noteq> c" for i j
      using that by (intro grown_grid_new_cell) simp_all
    have "length (st_tableData (s\<lparr> st_tableData := ?g' \<rparr>)) = r + 1
         \<and> (\<forall>i. i < r \<longrightarrow> st_tableData (s\<lparr> st_tableData := ?g' \<rparr>) ! i = [[], [], []])
         \<and> length (st_tableData (s\<lparr> st_tableData := ?g' \<rparr>) ! r) = max 3 (c + 1)
         \<and> c + 1 \<le> length (st_tableData (s\<lparr> st_tableData := ?g' \<rparr>) ! r)
         \<and> (\<forall>i j. i < length (st_tableData (s\<lparr> st_tableData := ?g' \<rparr>))
                  \<and> j < length (st_tableData (s\<lparr> st_tableData := ?g' \<rparr>) ! i)
                  \<and> (i \<noteq> r \<or> j \<noteq> c) \<longrightarrow> st_tableData (s\<lparr> st_tableData := ?g' \<rparr>) ! i ! j = [])
         \<and> st_tableData (s\<lparr> st_tableData := ?g' \<rparr>) ! r ! c = v"
      using 1 2 3 4 5 by simp
    with ok show ?thesis by blast
  qed
  from general three show ?thesis by blast
qed

lemma ToLength_3: "ToLength (Num 3) = 3"
  by (simp add: ToLength_def)

theorem setTableCell_lazy_grow_witness:
  "ToLength (Number_js (st_tableColumns (initial_state\<lparr>st_tableColumns := ''3''\<rparr>))) = 3
   \<and> (2::nat) < 3
   \<and> st_tableData (initial_state\<lparr>st_tableColumns := ''3''\<rparr>) = []
   \<and> \<not> isl (setTableCell (initial_state\<lparr>st_tableColumns := ''3''\<rparr>) 1 2 ''x'')
   \<and> st_tableData (projr (setTableCell (initial_state\<lparr>st_tableColumns := ''3''\<rparr>) 1 2 ''x''))
       = [[[], [], []], [[], [], ''x'']]"
proof -
  let ?s = "initial_state\<lparr>st_tableColumns := ''3''\<rparr>"
  have n: "ToLength (Number_js (st_tableColumns ?s)) = 3"
    by (simp add: Number_js_3 ToLength_3)
  have h: "ToLength (Number_js (st_tableColumns ?s)) = 3
      \<and> (2 < (3::nat) \<or> \<not> truthy_num (Number_js (st_tableColumns ?s)))
      \<and> max 3 (2 + 1) \<le> (2 ^ 32 - 1 :: nat)"
    using n by simp
  have e: "st_tableData ?s = []"
    by (simp add: initial_state_def)
  from setTableCell_lazy_grow [of ?s 3 2 1 "''x''"] h obtain s'
    where ok: "setTableCell ?s 1 2 ''x'' = Inr s'"
      and len: "length (st_tableData s') = max (length (st_tableData ?s)) (1 + 1)"
      and new: "\<forall>i. length (st_tableData ?s) \<le> i \<and> i < 1 \<longrightarrow>
                st_tableData s' ! i = replicate (max 3 (2 + 1)) []"
      and target: "length (st_tableData ?s) \<le> 1 \<longrightarrow>
                st_tableData s' ! 1 = (replicate (max 3 (2 + 1)) [])[2 := ''x'']"
    by blast
  from len e have l: "length (st_tableData s') = 2" by simp
  from new e have r0: "st_tableData s' ! 0 = [[], [], []]"
    by (simp add: numeral_3_eq_3)
  from target e have r1: "st_tableData s' ! 1 = [[], [], ''x'']"
    by (simp add: numeral_3_eq_3 numeral_2_eq_2)
  have "st_tableData s' = [st_tableData s' ! 0, st_tableData s' ! 1]"
    using l by (cases "st_tableData s'"; cases "tl (st_tableData s')") auto
  then have "st_tableData s' = [[[], [], []], [[], [], ''x'']]"
    by (simp only: r0 r1)
  with ok n e show ?thesis by simp
qed

text \<open>
  A call that does not come from the grid: with \<^verbatim>\<open>tableColumns = 3\<close>, three columns of
  inputs are drawn and none has \<open>c = 5\<close>. Called all the same on the empty grid,
  \<^verbatim>\<open>_setTableCell(1, 5, v)\<close> creates row 0 with three cells and row 1 with six: the
  operand \<^verbatim>\<open>Number(tableColumns) || (c + 1)\<close> is a fallback and not a maximum.
\<close>

lemma setTableCell_outside_grid:
  "\<not> isl (setTableCell (initial_state\<lparr>st_tableColumns := ''3''\<rparr>) 1 5 ''x'')
   \<and> st_tableData (projr (setTableCell (initial_state\<lparr>st_tableColumns := ''3''\<rparr>) 1 5 ''x''))
       = [[[], [], []], [[], [], [], [], [], ''x'']]"
proof -
  let ?s = "initial_state\<lparr>st_tableColumns := ''3''\<rparr>"
  have "setTableCell ?s 1 5 ''x'' = Inr (?s\<lparr> st_tableData := grown_grid 3 [] 1 5 ''x'' \<rparr>)"
    by (simp add: setTableCell_eq new_row_length_3 Number_js_3 initial_state_def)
  moreover have "grown_grid 3 [] 1 5 ''x'' = [[[], [], []], [[], [], [], [], [], ''x'']]"
    by (simp add: grown_grid_def Let_def eval_nat_numeral)
  ultimately show ?thesis by simp
qed

text \<open>A row too long for an array is not created: the call throws a \<^verbatim>\<open>RangeError\<close>.\<close>

lemma Number_js_2_32: "Number_js ''4294967296'' = Num 4294967296"
  using to_binary64_of_nat [of 4294967296] by (simp add: Number_js_defs)

lemma setTableCell_RangeError:
  "setTableCell (initial_state\<lparr>st_tableColumns := ''4294967296''\<rparr>) 0 0 ''x'' = Inl RangeError"
  by (simp add: setTableCell_eq new_row_length_def Number_js_2_32 truthy_num_def ToLength_def
      initial_state_def)

text \<open>
  C10. When \<^verbatim>\<open>_setTableCell(r, c, v)\<close> returns, every cell of the old grid other than
  \<open>(r, c)\<close> is still there with its old value, every cell that is new and is not \<open>(r, c)\<close>
  holds the empty string, the grid has \<open>max (length old) (r + 1)\<close> rows, so none beyond
  index \<open>r\<close> is added, and nothing of the state but the grid changes. It returns unless
  it has to create a row (\<open>r\<close> is not a row of the old grid) of more cells than an array
  can have, in which case it throws a \<^verbatim>\<open>RangeError\<close> and no state is set.
\<close>
theorem setTableCell_frame:
  "(case setTableCell s r c v of
      Inl e \<Rightarrow>
        e = RangeError \<and> length (st_tableData s) \<le> r
        \<and> 2 ^ 32 - 1 < ToLength (new_row_length (st_tableColumns s) c)
    | Inr s' \<Rightarrow>
        (\<forall>i j. i < length (st_tableData s) \<and> j < length (st_tableData s ! i) \<and> (i \<noteq> r \<or> j \<noteq> c) \<longrightarrow>
           i < length (st_tableData s')
           \<and> j < length (st_tableData s' ! i)
           \<and> st_tableData s' ! i ! j = st_tableData s ! i ! j)
        \<and> (\<forall>i j. i < length (st_tableData s')
              \<and> j < length (st_tableData s' ! i)
              \<and> \<not> (i < length (st_tableData s) \<and> j < length (st_tableData s ! i))
              \<and> (i \<noteq> r \<or> j \<noteq> c) \<longrightarrow>
           st_tableData s' ! i ! j = [])
        \<and> length (st_tableData s') = max (length (st_tableData s)) (r + 1)
        \<and> s'\<lparr> st_tableData := st_tableData s \<rparr> = s)"
proof (cases "length (st_tableData s) \<le> r
    \<and> 2 ^ 32 - 1 < ToLength (new_row_length (st_tableColumns s) c)")
  case True
  then show ?thesis
    by (simp add: setTableCell_eq)
next
  case False
  let ?g = "st_tableData s"
  let ?g' = "grown_grid (ToLength (new_row_length (st_tableColumns s) c)) ?g r c v"
  from False have ok: "setTableCell s r c v = Inr (s\<lparr> st_tableData := ?g' \<rparr>)"
    by (simp only: setTableCell_eq if_False)
  have len: "length ?g' = max (length ?g) (r + 1)"
    by (simp add: length_grown_grid)
  have old: "i < length ?g' \<and> j < length (?g' ! i) \<and> ?g' ! i ! j = ?g ! i ! j"
    if "i < length ?g" "j < length (?g ! i)" "i \<noteq> r \<or> j \<noteq> c" for i j
    using that by (rule grown_grid_old_cell)
  have new: "?g' ! i ! j = []"
    if "i < length ?g'" "j < length (?g' ! i)" "\<not> (i < length ?g \<and> j < length (?g ! i))"
       "i \<noteq> r \<or> j \<noteq> c" for i j
    using that by (rule grown_grid_new_cell)
  have frame: "(s\<lparr> st_tableData := ?g' \<rparr>)\<lparr> st_tableData := ?g \<rparr> = s"
    by simp
  have sel: "st_tableData (s\<lparr> st_tableData := ?g' \<rparr>) = ?g'"
    by simp
  have cells: "(\<forall>i j. i < length ?g \<and> j < length (?g ! i) \<and> (i \<noteq> r \<or> j \<noteq> c) \<longrightarrow>
           i < length ?g' \<and> j < length (?g' ! i) \<and> ?g' ! i ! j = ?g ! i ! j)
        \<and> (\<forall>i j. i < length ?g' \<and> j < length (?g' ! i)
              \<and> \<not> (i < length ?g \<and> j < length (?g ! i)) \<and> (i \<noteq> r \<or> j \<noteq> c) \<longrightarrow>
           ?g' ! i ! j = [])
        \<and> length ?g' = max (length ?g) (r + 1)"
    using old new len by blast
  show ?thesis
    unfolding ok sum.case sel using cells frame by (intro conjI) blast+
qed

lemma new_row_length_empty_1: "new_row_length [] 1 = Num 2"
  using js_add_1 [of 1] by (simp add: new_row_length_def Number_js_empty truthy_num_def)

theorem setTableCell_frame_witness:
  "\<not> isl (setTableCell (initial_state\<lparr>st_tableData := [[''a'', ''b'']]\<rparr>) 1 1 ''x'')
   \<and> st_tableData (projr (setTableCell (initial_state\<lparr>st_tableData := [[''a'', ''b'']]\<rparr>) 1 1 ''x'')) ! 0 ! 0 = ''a''
   \<and> st_tableData (projr (setTableCell (initial_state\<lparr>st_tableData := [[''a'', ''b'']]\<rparr>) 1 1 ''x'')) ! 0 ! 1 = ''b''
   \<and> st_tableData (projr (setTableCell (initial_state\<lparr>st_tableData := [[''a'', ''b'']]\<rparr>) 1 1 ''x'')) ! 1 ! 0 = []
   \<and> length (st_tableData (projr (setTableCell (initial_state\<lparr>st_tableData := [[''a'', ''b'']]\<rparr>) 1 1 ''x''))) = 2"
proof -
  let ?s = "initial_state\<lparr>st_tableData := [[''a'', ''b'']]\<rparr>"
  let ?g' = "grown_grid 2 (st_tableData ?s) 1 1 ''x''"
  have tc: "st_tableColumns ?s = []"
    by (simp add: initial_state_def)
  have l: "ToLength (new_row_length (st_tableColumns ?s) 1) = 2"
    by (simp only: tc new_row_length_empty_1) (simp add: ToLength_def)
  have ok: "setTableCell ?s 1 1 ''x'' = Inr (?s\<lparr> st_tableData := ?g' \<rparr>)"
    by (simp only: setTableCell_eq l) simp
  have sel: "st_tableData (?s\<lparr> st_tableData := ?g' \<rparr>) = ?g'"
    by simp
  have g: "st_tableData ?s = [[''a'', ''b'']]"
    by simp
  note f = setTableCell_frame [of ?s 1 1 "''x''", unfolded ok sum.case sel g]
  have old: "?g' ! 0 ! 0 = ''a''" "?g' ! 0 ! 1 = ''b''"
    using f [THEN conjunct1, rule_format, of 0 0] f [THEN conjunct1, rule_format, of 0 1]
    by simp_all
  have len: "length ?g' = 2"
    using f [THEN conjunct2, THEN conjunct2, THEN conjunct1] by simp
  have "Suc 1 \<le> length (?g' ! 1)"
    using grown_grid_target_cell [of 2 "st_tableData ?s" 1 1 "''x''"] by (simp only: g)
  then have l1: "0 < length (?g' ! 1)"
    by linarith
  have new: "?g' ! 1 ! 0 = []"
    using f [THEN conjunct2, THEN conjunct1, rule_format, of 1 0] len l1 by simp
  have "\<not> isl (setTableCell ?s 1 1 ''x'')"
    by (simp only: ok sum.disc) simp
  moreover have "st_tableData (projr (setTableCell ?s 1 1 ''x'')) = ?g'"
    by (simp only: ok sum.sel) simp
  ultimately show ?thesis
    using old new len by (simp only: g) simp
qed

section \<open>Properties of \<^verbatim>\<open>_addColumn\<close>\<close>

lemma addColumn_Inr_iff:
  "addColumn s = Inr s' \<longleftrightarrow>
     trim (newColumnName s) \<noteq> []
     \<and> (newColumnType s = ''htmltable'' \<longrightarrow>
          trim (st_tableName s) \<noteq> []
          \<and> st_tableRows s \<noteq> [] \<and> \<not> js_less (Number_js (st_tableRows s)) (Num 1)
          \<and> st_tableColumns s \<noteq> [] \<and> \<not> js_less (Number_js (st_tableColumns s)) (Num 1)
          \<and> \<not> headers_mismatch s)
     \<and> s' = s\<lparr> columns := columns s @ [newColumn s],
                 newColumnName := [], newInternalName := [], st_order := [], st_options := [],
                 st_tableName := [], st_tableRows := [], st_tableColumns := [],
                 st_tableHeaders := [], currentHeaderInput := [], st_tableData := [],
                 plainHtmlInput := [] \<rparr>"
  unfolding addColumn_def by (auto split: if_splits)

lemma addColumn_accepts:
  "trim (newColumnName s) \<noteq> [] \<Longrightarrow> newColumnType s \<noteq> ''htmltable'' \<Longrightarrow>
     addColumn s = Inr (projr (addColumn s))"
  by (simp add: addColumn_def)

lemma addColumn_last:
  "addColumn s = Inr s' \<Longrightarrow> columns s' = columns s @ [newColumn s]"
  by (simp add: addColumn_Inr_iff)

lemma newColumn_internalName [simp]: "internalName (newColumn s) = generatedInternalName s"
  by (simp add: newColumn_def Let_def)

lemma newColumn_order [simp]: "order (newColumn s) = orderNumber s"
  by (simp add: newColumn_def Let_def)

lemma newColumn_ftype [simp]: "ftype (newColumn s) = newColumnType s"
  by (simp add: newColumn_def Let_def)

lemma newColumn_label [simp]: "label (newColumn s) = newColumnName s"
  by (simp add: newColumn_def Let_def)

lemma newColumn_options:
  "options (newColumn s) = (if newColumnType s \<in> set choice_types then Some (st_options s) else None)"
  by (simp add: newColumn_def Let_def)

lemma newColumn_htmltable:
  "newColumnType s = ''htmltable'' \<Longrightarrow>
     tableName (newColumn s) = Some (st_tableName s)
     \<and> tableRows (newColumn s) = Some (Number_js (st_tableRows s))
     \<and> tableColumns (newColumn s) = Some (Number_js (st_tableColumns s))
     \<and> tableHeaders (newColumn s) = Some (map cd_name (st_tableColumnDefs s))
     \<and> tableColumnDefs (newColumn s) = Some (st_tableColumnDefs s)
     \<and> tableData (newColumn s) = Some (st_tableData s)"
  by (simp add: newColumn_def Let_def choice_types_def)

lemma newColumn_htmlrender:
  "newColumnType s = ''htmlrender'' \<Longrightarrow>
     tableName (newColumn s) = Some (st_tableName s)
     \<and> tableRows (newColumn s) = Some (Number_js (st_tableRows s))
     \<and> tableColumns (newColumn s) = Some (Number_js (st_tableColumns s))
     \<and> tableHeaders (newColumn s) = Some (st_tableHeaders s)
     \<and> tableColumnDefs (newColumn s) = Some (st_tableColumnDefs s)
     \<and> tableData (newColumn s) = Some (st_tableData s)"
  by (simp add: newColumn_def Let_def choice_types_def)

subsection \<open>The internal name\<close>

lemma replace_non_alnum_filter: "replace_non_alnum s = filter is_alnum s"
  by (induction s) simp_all

lemma space_not_alnum: "is_space ch \<Longrightarrow> \<not> is_alnum ch"
  by (auto simp: is_space_def is_alnum_def)

lemma filter_alnum_dropWhile_space:
  "filter is_alnum (dropWhile is_space s) = filter is_alnum s"
  by (induction s) (simp_all add: space_not_alnum)

lemma filter_alnum_replace_space_runs:
  "filter is_alnum (replace_space_runs s) = filter is_alnum s"
  by (induction s rule: replace_space_runs.induct)
    (simp_all add: space_not_alnum filter_alnum_dropWhile_space)

text \<open>
  C6. When \<^verbatim>\<open>_addColumn\<close> accepts a draft, the stored \<^verbatim>\<open>internalName\<close> is the explicit
  internal name if one was typed, unchanged, and otherwise the label with every character
  that is not an ASCII letter or digit removed (white space included).
\<close>
theorem addColumn_internalName:
  "addColumn s = Inr s' \<Longrightarrow>
     internalName (last (columns s'))
       = (if newInternalName s \<noteq> [] then newInternalName s
          else filter is_alnum (newColumnName s))"
  by (simp add: addColumn_last generatedInternalName_def replace_non_alnum_filter
      filter_alnum_replace_space_runs)

lemma trim_Cons_nonspace: "\<not> is_space ch \<Longrightarrow> trim (ch # s) \<noteq> []"
  by (simp add: trim_def)

theorem addColumn_internalName_witness:
  "addColumn (initial_state\<lparr>newColumnName := ''Employee Name!''\<rparr>)
     = Inr (projr (addColumn (initial_state\<lparr>newColumnName := ''Employee Name!''\<rparr>)))
   \<and> internalName (last (columns (projr (addColumn (initial_state\<lparr>newColumnName := ''Employee Name!''\<rparr>)))))
       = ''EmployeeName''"
proof -
  let ?s = "initial_state\<lparr>newColumnName := ''Employee Name!''\<rparr>"
  have ok: "addColumn ?s = Inr (projr (addColumn ?s))"
    by (simp add: addColumn_def initial_state_def trim_Cons_nonspace is_space_def)
  from addColumn_internalName [OF ok] show ?thesis
    using ok by (simp add: initial_state_def is_alnum_def)
qed

subsection \<open>The order\<close>

lemma foldl_max2_Num:
  "foldl max2 (Num a) (map Num qs) = Num (Max (insert a (set qs)))"
proof (induction qs arbitrary: a)
  case Nil
  then show ?case by simp
next
  case (Cons q qs)
  have "max2 (Num a) (Num q) = Num (max a q)"
    by (simp add: max2_def max_def)
  moreover have "Max (insert (max a q) (set qs)) = Max (insert a (insert q (set qs)))"
    by (metis List.finite_set Max_insert finite.insertI insert_not_empty max.assoc Max_singleton)
  ultimately show ?case using Cons.IH [of "max a q"] by simp
qed

lemma Math_max_Num:
  "qs \<noteq> [] \<Longrightarrow> Math_max (map Num qs) = Num (Max (set qs))"
proof (cases qs)
  case Nil
  then show "qs \<noteq> [] \<Longrightarrow> ?thesis" by simp
next
  case (Cons q qs')
  have "max2 NInf (Num q) = Num q" by (simp add: max2_def)
  then show ?thesis using Cons foldl_max2_Num [of q qs']
    by (simp add: Math_max_def)
qed

text \<open>
  C7 (amended). When \<^verbatim>\<open>_addColumn\<close> accepts a draft with an explicit order, the stored
  order is \<^verbatim>\<open>Number(order)\<close>: for the decimal numeral of \<open>k\<close> it is \<open>k\<close> rounded to
  binary64, which is \<open>k\<close> itself up to \<open>2^53\<close>. With no explicit order it is \<open>1\<close> for the
  first field and \<^verbatim>\<open>Math.max\<close> of the existing orders plus one, in binary64, otherwise:
  for existing orders that are the numbers \<open>qs\<close>, the greatest of \<open>qs\<close> plus one rounded to
  binary64, which is the greatest plus one whenever the greatest is an integer \<open>m\<close> with
  \<open>m + 1\<close> of magnitude at most \<open>2^53\<close>.
\<close>
theorem addColumn_order:
  "addColumn s = Inr s' \<Longrightarrow>
     (st_order s \<noteq> [] \<longrightarrow> order (last (columns s')) = Number_js (st_order s))
     \<and> (st_order s = string_of_nat k \<longrightarrow> order (last (columns s')) = to_binary64 (of_nat k))
     \<and> (st_order s = string_of_nat k \<and> k \<le> 2 ^ 53 \<longrightarrow>
          order (last (columns s')) = Num (of_nat k))
     \<and> (st_order s = [] \<and> columns s = [] \<longrightarrow> order (last (columns s')) = Num 1)
     \<and> (st_order s = [] \<and> columns s \<noteq> [] \<longrightarrow>
          order (last (columns s')) = js_add (Math_max (map order (columns s))) (Num 1))
     \<and> (st_order s = [] \<and> columns s \<noteq> [] \<and> map order (columns s) = map Num qs \<longrightarrow>
          order (last (columns s')) = to_binary64 (Max (set qs) + 1))
     \<and> (st_order s = [] \<and> columns s \<noteq> [] \<and> map order (columns s) = map Num qs
          \<and> Max (set qs) = of_int m \<and> \<bar>m + 1\<bar> \<le> 2 ^ 53 \<longrightarrow>
          order (last (columns s')) = Num (of_int (m + 1)))"
proof -
  assume ok: "addColumn s = Inr s'"
  have o: "order (last (columns s')) = orderNumber s"
    using ok by (simp add: addColumn_last)
  have explicit: "order (last (columns s')) = to_binary64 (of_nat k)"
    if "st_order s = string_of_nat k"
    using that string_of_nat_digits [of k]
    by (simp add: o orderNumber_def Number_js_string_of_nat)
  have safe: "order (last (columns s')) = Num (of_nat k)"
    if "st_order s = string_of_nat k" "k \<le> 2 ^ 53"
    using explicit [OF that(1)] to_binary64_of_nat [OF that(2)] by simp
  have first: "order (last (columns s')) = Num 1" if "st_order s = []" "columns s = []"
    using that by (simp add: o orderNumber_def to_binary64_small)
  have auto: "order (last (columns s')) = to_binary64 (Max (set qs) + 1)"
    if "st_order s = []" "columns s \<noteq> []" "map order (columns s) = map Num qs"
  proof -
    from that have "qs \<noteq> []" by auto
    with that show ?thesis
      by (simp add: o orderNumber_def Math_max_Num)
  qed
  have exact: "order (last (columns s')) = Num (of_int (m + 1))"
    if "st_order s = []" "columns s \<noteq> []" "map order (columns s) = map Num qs"
      "Max (set qs) = of_int m" "\<bar>m + 1\<bar> \<le> 2 ^ 53"
  proof -
    have "Max (set qs) + 1 = of_int (m + 1)"
      using that(4) by simp
    then show ?thesis
      using auto [OF that(1-3)] to_binary64_of_int [OF that(5)] by (simp only:)
  qed
  show ?thesis
    using explicit safe first auto exact by (auto simp: o orderNumber_def)
qed

theorem addColumn_order_witness:
  "addColumn (initial_state\<lparr>newColumnName := ''C'',
       columns := [newColumn (initial_state\<lparr>st_order := ''1''\<rparr>), newColumn (initial_state\<lparr>st_order := ''3''\<rparr>)]\<rparr>)
     = Inr (projr (addColumn (initial_state\<lparr>newColumnName := ''C'',
       columns := [newColumn (initial_state\<lparr>st_order := ''1''\<rparr>), newColumn (initial_state\<lparr>st_order := ''3''\<rparr>)]\<rparr>)))
   \<and> map order (columns (projr (addColumn (initial_state\<lparr>newColumnName := ''C'',
       columns := [newColumn (initial_state\<lparr>st_order := ''1''\<rparr>), newColumn (initial_state\<lparr>st_order := ''3''\<rparr>)]\<rparr>))))
       = [Num 1, Num 3, Num 4]"
proof -
  let ?s = "initial_state\<lparr>newColumnName := ''C'',
       columns := [newColumn (initial_state\<lparr>st_order := ''1''\<rparr>), newColumn (initial_state\<lparr>st_order := ''3''\<rparr>)]\<rparr>"
  have ok: "addColumn ?s = Inr (projr (addColumn ?s))"
    by (simp add: addColumn_def initial_state_def trim_Cons_nonspace is_space_def)
  have os: "map order (columns ?s) = map Num [1, 3]"
    by (simp add: initial_state_def orderNumber_def Number_js_1 Number_js_3)
  have cs: "columns (projr (addColumn ?s)) = columns ?s @ [newColumn ?s]"
    using ok by (rule addColumn_last)
  have a: "st_order ?s = []" and b: "columns ?s \<noteq> []"
    by (simp_all add: initial_state_def)
  have m: "Max (set [1, 3 :: rat]) = of_int 3" and n: "\<bar>3 + 1 :: int\<bar> \<le> 2 ^ 53"
    by simp_all
  from addColumn_order [OF ok, where qs = "[1, 3]" and m = 3] a b os m n
  have "order (last (columns (projr (addColumn ?s)))) = Num (of_int (3 + 1))"
    by blast
  then have "order (last (columns (projr (addColumn ?s)))) = Num 4"
    by simp
  with os ok show ?thesis
    unfolding cs by simp
qed

text \<open>
  Beyond \<open>2^53\<close> the greatest order plus one is not a binary64 value. A first field is
  added with the order \<^verbatim>\<open>9007199254740992\<close> typed (\<open>2^53\<close>), then a second one with
  no order typed: its order is \<open>2^53\<close> again, not \<open>2^53 + 1\<close>.
\<close>

theorem addColumn_order_beyond_2_53_counterexample:
  "\<not> isl (addColumn (initial_state\<lparr>newColumnName := ''A'', st_order := ''9007199254740992''\<rparr>))
   \<and> st_order ((projr (addColumn (initial_state\<lparr>newColumnName := ''A'',
          st_order := ''9007199254740992''\<rparr>)))\<lparr>newColumnName := ''B''\<rparr>) = []
   \<and> map order (columns ((projr (addColumn (initial_state\<lparr>newColumnName := ''A'',
          st_order := ''9007199254740992''\<rparr>)))\<lparr>newColumnName := ''B''\<rparr>))
       = [Num 9007199254740992]
   \<and> \<not> isl (addColumn ((projr (addColumn (initial_state\<lparr>newColumnName := ''A'',
          st_order := ''9007199254740992''\<rparr>)))\<lparr>newColumnName := ''B''\<rparr>))
   \<and> order (last (columns (projr (addColumn ((projr (addColumn (initial_state\<lparr>newColumnName := ''A'',
          st_order := ''9007199254740992''\<rparr>)))\<lparr>newColumnName := ''B''\<rparr>)))))
       = Num 9007199254740992
   \<and> Num 9007199254740992 \<noteq> Num (9007199254740992 + 1)"
proof -
  let ?d = "initial_state\<lparr>newColumnName := ''A'', st_order := ''9007199254740992''\<rparr>"
  let ?s = "projr (addColumn ?d)"
  let ?e = "?s\<lparr>newColumnName := ''B''\<rparr>"
  have ok1: "addColumn ?d = Inr ?s"
    by (simp add: addColumn_def initial_state_def trim_Cons_nonspace is_space_def)
  have o1: "orderNumber ?d = Num 9007199254740992"
    by (simp add: orderNumber_def initial_state_def Number_js_2_53)
  have c1: "columns ?s = [newColumn ?d]" and r1: "st_order ?s = []"
    using ok1 by (simp_all add: addColumn_Inr_iff initial_state_def)
  have os: "map order (columns ?e) = [Num 9007199254740992]"
    by (simp add: c1 o1)
  have n: "newColumnName ?e = ''B''" and t: "newColumnType ?s = ''text''"
    using ok1 by (simp_all add: addColumn_Inr_iff initial_state_def)
  have "trim (newColumnName ?e) \<noteq> []"
    by (simp only: n) (simp add: trim_Cons_nonspace is_space_def)
  moreover have "newColumnType ?e \<noteq> ''htmltable''"
    by (simp add: t)
  ultimately have ok2: "addColumn ?e = Inr (projr (addColumn ?e))"
    by (rule addColumn_accepts)
  have "orderNumber ?e = js_add (Math_max [order (newColumn ?d)]) (Num 1)"
    by (simp add: orderNumber_def r1 c1 del: newColumn_order)
  also have "\<dots> = js_add (Math_max [Num 9007199254740992]) (Num 1)"
    by (simp only: newColumn_order o1)
  also have "\<dots> = Num 9007199254740992"
    by (simp add: Math_max_def max2_def to_binary64_tie)
  finally have o2: "orderNumber ?e = Num 9007199254740992" .
  have "order (last (columns (projr (addColumn ?e)))) = Num 9007199254740992"
    using addColumn_last [OF ok2] by (simp add: o2)
  moreover have "\<not> isl (addColumn ?d)" "\<not> isl (addColumn ?e)"
    using ok1 ok2 by (metis sum.disc(2))+
  moreover have "st_order ?e = []"
    by (simp add: r1)
  ultimately show ?thesis
    using os by simp
qed

text \<open>An order typed beyond \<open>2^53\<close> is stored rounded: \<^verbatim>\<open>9007199254740993\<close> is stored as
  \<open>9007199254740992\<close>.\<close>

lemma addColumn_order_text_beyond_2_53:
  "order (last (columns (projr (addColumn (initial_state\<lparr>newColumnName := ''A'',
      st_order := ''9007199254740993''\<rparr>))))) = Num 9007199254740992"
proof -
  let ?d = "initial_state\<lparr>newColumnName := ''A'', st_order := ''9007199254740993''\<rparr>"
  have "trim (newColumnName ?d) \<noteq> []" "newColumnType ?d \<noteq> ''htmltable''"
    by (simp_all add: initial_state_def trim_Cons_nonspace is_space_def)
  then have "addColumn ?d = Inr (projr (addColumn ?d))"
    by (rule addColumn_accepts)
  from addColumn_last [OF this] show ?thesis
    by (simp add: orderNumber_def initial_state_def Number_js_2_53_plus_1)
qed

text \<open>Every order \<^verbatim>\<open>_addColumn\<close> stores is a Number value.\<close>

lemma js_number_orderNumber: "js_number (orderNumber s)"
  by (simp add: orderNumber_def Let_def js_number_Number_js js_number_js_add)

subsection \<open>What a successful call resets\<close>

lemma addColumn_header_count_message:
  "trim (newColumnName s) \<noteq> [] \<Longrightarrow> newColumnType s = ''htmltable'' \<Longrightarrow>
   trim (st_tableName s) \<noteq> [] \<Longrightarrow>
   st_tableRows s \<noteq> [] \<Longrightarrow> \<not> js_less (Number_js (st_tableRows s)) (Num 1) \<Longrightarrow>
   st_tableColumns s \<noteq> [] \<Longrightarrow> \<not> js_less (Number_js (st_tableColumns s)) (Num 1) \<Longrightarrow>
   headers_mismatch s \<Longrightarrow>
     addColumn s = Inl (Alert (''Please provide exactly '' @ st_tableColumns s @ '' column header(s).''))"
  by (simp add: addColumn_def)

lemma addColumn_resets:
  "addColumn s = Inr s' \<Longrightarrow>
     columns s' = columns s @ [newColumn s]
     \<and> st_options s' = [] \<and> st_tableHeaders s' = [] \<and> st_tableData s' = []
     \<and> st_tableColumnDefs s' = st_tableColumnDefs s"
  by (simp add: addColumn_Inr_iff)

text \<open>
  C2. A successful \<^verbatim>\<open>_addColumn\<close> appends the new field and empties the pending options,
  the pending header names and the pending grid, but the object it passes to
  \<^verbatim>\<open>setState\<close> has no \<^verbatim>\<open>tableColumnDefs\<close>: the pending column definitions stay. After one
  header \<^verbatim>\<open>A\<close> is added and the table field accepted, the pending header names are
  empty and the pending column definitions still hold the definition of \<^verbatim>\<open>A\<close>.
\<close>
theorem addColumn_keeps_pending_column_defs:
  "\<not> isl (addColumn (addTableHeader (initial_state\<lparr>newColumnName := ''T'', newColumnType := ''htmltable'',
      st_tableName := ''t'', st_tableRows := ''2'', st_tableColumns := ''1'',
      currentHeaderInput := ''A''\<rparr>)))
   \<and> st_tableHeaders (projr (addColumn (addTableHeader (initial_state\<lparr>newColumnName := ''T'',
      newColumnType := ''htmltable'', st_tableName := ''t'', st_tableRows := ''2'',
      st_tableColumns := ''1'', currentHeaderInput := ''A''\<rparr>)))) = []
   \<and> st_tableColumnDefs (projr (addColumn (addTableHeader (initial_state\<lparr>newColumnName := ''T'',
      newColumnType := ''htmltable'', st_tableName := ''t'', st_tableRows := ''2'',
      st_tableColumns := ''1'', currentHeaderInput := ''A''\<rparr>))))
       = [\<lparr>cd_name = ''A'', cd_type = ''text'', cd_options = None\<rparr>]"
proof -
  let ?d = "initial_state\<lparr>newColumnName := ''T'', newColumnType := ''htmltable'',
      st_tableName := ''t'', st_tableRows := ''2'', st_tableColumns := ''1'',
      currentHeaderInput := ''A''\<rparr>"
  let ?s = "addTableHeader ?d"
  have s: "?s = initial_state\<lparr>newColumnName := ''T'', newColumnType := ''htmltable'',
      st_tableName := ''t'', st_tableRows := ''2'', st_tableColumns := ''1'',
      st_tableHeaders := [''A''],
      st_tableColumnDefs := [\<lparr>cd_name = ''A'', cd_type = ''text'', cd_options = None\<rparr>]\<rparr>"
    by (simp add: addTableHeader_def Let_def initial_state_def trim_def is_space_def)
  have ok: "addColumn ?s = Inr (projr (addColumn ?s))"
    unfolding s
    by (simp add: addColumn_def initial_state_def trim_Cons_nonspace is_space_def Number_js_1
        Number_js_2 headers_mismatch_def js_strict_eq_def)
  have "\<not> isl (addColumn ?s)"
    using ok by (metis sum.disc(2))
  moreover from ok have "st_tableHeaders (projr (addColumn ?s)) = []"
    "st_tableColumnDefs (projr (addColumn ?s)) = st_tableColumnDefs ?s"
    by (simp_all add: addColumn_Inr_iff)
  ultimately show ?thesis
    unfolding s by simp
qed

text \<open>The definitions left behind reach the next field: a \<^verbatim>\<open>htmlrender\<close> field added
  right after the table field, with no column count typed, carries the definition of
  \<^verbatim>\<open>A\<close> with no header and zero columns.\<close>

lemma stale_column_defs_reach_next_field:
  "tableColumnDefs (last (columns (projr (addColumn
      ((projr (addColumn (addTableHeader (initial_state\<lparr>newColumnName := ''T'',
          newColumnType := ''htmltable'', st_tableName := ''t'', st_tableRows := ''2'',
          st_tableColumns := ''1'', currentHeaderInput := ''A''\<rparr>))))
        \<lparr>newColumnName := ''R'', newColumnType := ''htmlrender''\<rparr>)))))
     = Some [\<lparr>cd_name = ''A'', cd_type = ''text'', cd_options = None\<rparr>]
   \<and> tableHeaders (last (columns (projr (addColumn
      ((projr (addColumn (addTableHeader (initial_state\<lparr>newColumnName := ''T'',
          newColumnType := ''htmltable'', st_tableName := ''t'', st_tableRows := ''2'',
          st_tableColumns := ''1'', currentHeaderInput := ''A''\<rparr>))))
        \<lparr>newColumnName := ''R'', newColumnType := ''htmlrender''\<rparr>))))) = Some []
   \<and> tableColumns (last (columns (projr (addColumn
      ((projr (addColumn (addTableHeader (initial_state\<lparr>newColumnName := ''T'',
          newColumnType := ''htmltable'', st_tableName := ''t'', st_tableRows := ''2'',
          st_tableColumns := ''1'', currentHeaderInput := ''A''\<rparr>))))
        \<lparr>newColumnName := ''R'', newColumnType := ''htmlrender''\<rparr>))))) = Some (Num 0)"
proof -
  let ?d = "initial_state\<lparr>newColumnName := ''T'', newColumnType := ''htmltable'',
      st_tableName := ''t'', st_tableRows := ''2'', st_tableColumns := ''1'',
      currentHeaderInput := ''A''\<rparr>"
  let ?a = "\<lparr>cd_name = ''A'', cd_type = ''text'', cd_options = None\<rparr>"
  let ?s1 = "projr (addColumn (addTableHeader ?d))"
  let ?s2 = "?s1\<lparr>newColumnName := ''R'', newColumnType := ''htmlrender''\<rparr>"
  have s: "addTableHeader ?d = initial_state\<lparr>newColumnName := ''T'', newColumnType := ''htmltable'',
      st_tableName := ''t'', st_tableRows := ''2'', st_tableColumns := ''1'',
      st_tableHeaders := [''A''], st_tableColumnDefs := [?a]\<rparr>"
    by (simp add: addTableHeader_def Let_def initial_state_def trim_def is_space_def)
  have ok1: "addColumn (addTableHeader ?d) = Inr ?s1"
    unfolding s
    by (simp add: addColumn_def initial_state_def trim_Cons_nonspace is_space_def Number_js_1
        Number_js_2 headers_mismatch_def js_strict_eq_def)
  then have r: "st_tableColumnDefs ?s1 = [?a]" "st_tableHeaders ?s1 = []" "st_tableColumns ?s1 = []"
    unfolding s by (simp_all add: addColumn_Inr_iff)
  have t: "newColumnType ?s2 = ''htmlrender''" and n: "newColumnName ?s2 = ''R''"
    by simp_all
  have ok2: "addColumn ?s2 = Inr (projr (addColumn ?s2))"
    by (simp add: addColumn_def n trim_Cons_nonspace is_space_def)
  have "columns (projr (addColumn ?s2)) = columns ?s2 @ [newColumn ?s2]"
    using ok2 by (rule addColumn_last)
  then show ?thesis
    using newColumn_htmlrender [OF t] r by (simp add: Number_js_empty)
qed

subsection \<open>Choice fields and the button\<close>

text \<open>
  C5. The button "Add Column" is disabled for a \<^verbatim>\<open>dropdown\<close>, \<^verbatim>\<open>radio\<close> or \<^verbatim>\<open>checkbox\<close>
  draft with no pending option, so the click adds nothing. With at least one pending
  option and a column name that is not blank the click succeeds, the stored field's
  \<^verbatim>\<open>options\<close> are the pending options as they were at the click, and the pending
  options are empty afterwards.
\<close>
theorem click_AddColumn_choice_options:
  "(newColumnType s \<in> set choice_types \<and> st_options s = [] \<longrightarrow>
      click_AddColumn s = Inl Disabled)
   \<and> (newColumnType s \<in> set choice_types \<and> st_options s \<noteq> [] \<and> trim (newColumnName s) \<noteq> [] \<longrightarrow>
        (\<exists>s'. click_AddColumn s = Inr s'
           \<and> columns s' = columns s @ [newColumn s]
           \<and> options (last (columns s')) = Some (st_options s)
           \<and> st_options s' = []))"
proof -
  have "click_AddColumn s = Inl Disabled"
    if "newColumnType s \<in> set choice_types" "st_options s = []"
    using that by (simp add: click_AddColumn_def addColumn_disabled_def)
  moreover have "\<exists>s'. click_AddColumn s = Inr s'
           \<and> columns s' = columns s @ [newColumn s]
           \<and> options (last (columns s')) = Some (st_options s)
           \<and> st_options s' = []"
    if t: "newColumnType s \<in> set choice_types" and o: "st_options s \<noteq> []"
      and n: "trim (newColumnName s) \<noteq> []"
  proof -
    from t have nt: "newColumnType s \<noteq> ''htmltable''"
      by (auto simp: choice_types_def)
    from n have "newColumnName s \<noteq> []"
      by (auto simp: trim_def)
    with t o nt have en: "\<not> addColumn_disabled s"
      by (simp add: addColumn_disabled_def)
    from n nt obtain s' where ok: "addColumn s = Inr s'"
      by (simp add: addColumn_def)
    then have "columns s' = columns s @ [newColumn s]" "st_options s' = []"
      by (simp_all add: addColumn_Inr_iff)
    with en ok t show ?thesis
      by (simp add: click_AddColumn_def newColumn_options)
  qed
  ultimately show ?thesis by blast
qed

theorem click_AddColumn_choice_options_witness:
  "click_AddColumn (initial_state\<lparr>newColumnName := ''Q'', newColumnType := ''dropdown''\<rparr>) = Inl Disabled
   \<and> \<not> isl (click_AddColumn (addChoice (initial_state\<lparr>newColumnName := ''Q'',
        newColumnType := ''dropdown'', newChoiceValue := ''Yes''\<rparr>)))
   \<and> options (last (columns (projr (click_AddColumn (addChoice (initial_state\<lparr>newColumnName := ''Q'',
        newColumnType := ''dropdown'', newChoiceValue := ''Yes''\<rparr>)))))) = Some [''Yes'']
   \<and> st_options (projr (click_AddColumn (addChoice (initial_state\<lparr>newColumnName := ''Q'',
        newColumnType := ''dropdown'', newChoiceValue := ''Yes''\<rparr>)))) = []"
proof -
  let ?e = "initial_state\<lparr>newColumnName := ''Q'', newColumnType := ''dropdown''\<rparr>"
  let ?s = "addChoice (initial_state\<lparr>newColumnName := ''Q'',
        newColumnType := ''dropdown'', newChoiceValue := ''Yes''\<rparr>)"
  have s: "?s = initial_state\<lparr>newColumnName := ''Q'', newColumnType := ''dropdown'',
      st_options := [''Yes'']\<rparr>"
    by (simp add: addChoice_def initial_state_def trim_def is_space_def)
  have a: "newColumnType ?e \<in> set choice_types \<and> st_options ?e = []"
    by (simp add: initial_state_def choice_types_def)
  have b: "newColumnType ?s \<in> set choice_types \<and> st_options ?s \<noteq> [] \<and> trim (newColumnName ?s) \<noteq> []"
    unfolding s by (simp add: initial_state_def choice_types_def trim_def is_space_def)
  have o: "st_options ?s = [''Yes'']"
    unfolding s by simp
  from click_AddColumn_choice_options [of ?e] a
  have 1: "click_AddColumn ?e = Inl Disabled"
    by blast
  from click_AddColumn_choice_options [of ?s] b obtain s'
    where "click_AddColumn ?s = Inr s'" "options (last (columns s')) = Some (st_options ?s)"
      "st_options s' = []"
    by blast
  with 1 o show ?thesis
    by simp
qed

subsection \<open>Pending headers and pending column definitions\<close>

lemma map_filter_out_index: "map f (filter_out_index i xs) = filter_out_index i (map f xs)"
  by (simp add: filter_out_index_def zip_map1 filter_map o_def split_def)

lemma addTableHeader_sync:
  "map cd_name (st_tableColumnDefs s) = st_tableHeaders s \<Longrightarrow>
     map cd_name (st_tableColumnDefs (addTableHeader s)) = st_tableHeaders (addTableHeader s)"
  by (simp add: addTableHeader_def Let_def)

lemma removeTableHeader_sync:
  "map cd_name (st_tableColumnDefs s) = st_tableHeaders s \<Longrightarrow>
     map cd_name (st_tableColumnDefs (removeTableHeader i s)) = st_tableHeaders (removeTableHeader i s)"
  by (simp add: removeTableHeader_def map_filter_out_index)

lemma all_or_error_replicate_Inr: "all_or_error (replicate n (Inr y)) = Inr (replicate n y)"
  by (induction n) simp_all

lemma all_or_error_replicate_Inl:
  "all_or_error (replicate n (Inl e)) = (if n = 0 then Inr [] else Inl e)"
  by (cases n) simp_all

text \<open>The grid the column box of \<^verbatim>\<open>htmlrender\<close> builds: no row is built, and no error
  arises from a row, when there are no rows.\<close>

lemma Array_from_grid:
  "Array_from x (\<lambda>_. Array_from y (\<lambda>_. Inr []))
     = (if 2 ^ 32 - 1 < ToLength x then Inl RangeError
        else if ToLength x = 0 then Inr []
        else if 2 ^ 32 - 1 < ToLength y then Inl RangeError
        else Inr (replicate (ToLength x) (replicate (ToLength y) [])))"
  by (simp add: Array_from_def [of x] Array_from_empty_strings map_replicate_const
      all_or_error_replicate_Inr all_or_error_replicate_Inl)

lemma setTableColumns_htmlrender_Inr:
  "setTableColumns_htmlrender v s = Inr s' \<Longrightarrow>
     columns s' = columns s \<and> st_tableRows s' = st_tableRows s \<and> st_tableColumns s' = v
     \<and> st_tableHeaders s' = [] \<and> st_tableColumnDefs s' = []"
  by (auto simp: setTableColumns_htmlrender_def Let_def split: sum.splits)

lemma setTableCell_Inr:
  "setTableCell s r c v = Inr s' \<Longrightarrow>
     columns s' = columns s \<and> st_tableRows s' = st_tableRows s
     \<and> st_tableColumns s' = st_tableColumns s
     \<and> st_tableHeaders s' = st_tableHeaders s \<and> st_tableColumnDefs s' = st_tableColumnDefs s"
  by (auto simp: setTableCell_eq split: if_splits)

text \<open>
  In every state the builder reaches, the pending column definitions carry the names of
  the pending headers, in order, as soon as a column count is entered. (After
  \<^verbatim>\<open>_addColumn\<close> the headers are empty and the definitions are not, but so is the column
  count, and typing a new one empties both.) The pending row count is never read as
  \<^verbatim>\<open>NaN\<close>, and every order stored is a Number value.
\<close>

lemma reachable_invariant:
  "reachable s \<Longrightarrow>
     (st_tableColumns s = [] \<or> map cd_name (st_tableColumnDefs s) = st_tableHeaders s)
     \<and> Number_js (st_tableRows s) \<noteq> NaN
     \<and> (\<forall>f\<in>set (columns s). js_number (order f))"
proof (induction rule: reachable.induct)
  case init
  then show ?case by (simp add: initial_state_def Number_js_empty)
next
  case (rows s v)
  then show ?case by (simp add: setTableRows_def)
next
  case (columns_htmltable s v)
  then show ?case by (simp add: setTableColumns_htmltable_def)
next
  case (columns_htmlrender s v s')
  then show ?case by (simp add: setTableColumns_htmlrender_Inr)
next
  case (add_header s)
  then show ?case by (auto simp: addTableHeader_def Let_def)
next
  case (remove_header s index)
  then show ?case by (auto simp: removeTableHeader_def map_filter_out_index)
next
  case (add_column s s')
  then show ?case by (simp add: addColumn_Inr_iff Number_js_empty js_number_orderNumber)
next
  case (submit s item s')
  then show ?case by (auto simp: submitForm_def Number_js_empty split: if_splits)
next
  case (other s s')
  then show ?case by simp
qed

text \<open>\<^verbatim>\<open>_setTableCell\<close> is one of the handlers the rule \<open>other\<close> stands for.\<close>

lemma reachable_setTableCell:
  "reachable s \<Longrightarrow> setTableCell s r c v = Inr s' \<Longrightarrow> reachable s'"
  by (rule reachable.other) (simp_all add: setTableCell_Inr)

text \<open>\<^verbatim>\<open>_removeTableHeader\<close> with an index out of range changes nothing, and otherwise
  drops the entry at the index.\<close>

lemma filter_out_index_eq: "filter_out_index i xs = take i xs @ drop (Suc i) xs"
proof (induction xs arbitrary: i rule: rev_induct)
  case Nil
  then show ?case by (simp add: filter_out_index_def)
next
  case (snoc x xs)
  have "filter_out_index i (xs @ [x])
          = filter_out_index i xs @ (if length xs \<noteq> i then [x] else [])"
    by (simp add: filter_out_index_def)
  with snoc [of i] show ?case
    by (cases "i < length xs") auto
qed

lemma filter_out_index_out_of_range: "length xs \<le> i \<Longrightarrow> filter_out_index i xs = xs"
  by (simp add: filter_out_index_eq)

subsection \<open>Table fields\<close>

text \<open>
  C1 (amended). For an \<^verbatim>\<open>htmltable\<close> field that \<^verbatim>\<open>_addColumn\<close> accepts in a state the
  builder can reach, \<^verbatim>\<open>tableColumnDefs\<close> has \<^verbatim>\<open>tableColumns\<close> entries and there is at
  least one, \<^verbatim>\<open>tableHeaders\<close> are the names of the column definitions, which are the
  pending headers, \<^verbatim>\<open>tableRows\<close> is a number and at least one, and \<^verbatim>\<open>tableData\<close> is the
  pending grid as it stands, whatever its size.
\<close>
theorem addColumn_htmltable_dimensions:
  "reachable s \<Longrightarrow> addColumn s = Inr s' \<Longrightarrow> newColumnType s = ''htmltable'' \<Longrightarrow>
     ftype (last (columns s')) = ''htmltable''
     \<and> tableColumnDefs (last (columns s')) = Some (st_tableColumnDefs s)
     \<and> tableColumns (last (columns s')) = Some (Num (of_nat (length (st_tableColumnDefs s))))
     \<and> 1 \<le> length (st_tableColumnDefs s)
     \<and> tableHeaders (last (columns s')) = Some (map cd_name (st_tableColumnDefs s))
     \<and> st_tableHeaders s = map cd_name (st_tableColumnDefs s)
     \<and> (\<exists>x. tableRows (last (columns s')) = Some x \<and> (x = Num 1 \<or> js_less (Num 1) x))
     \<and> tableData (last (columns s')) = Some (st_tableData s)"
proof -
  assume r: "reachable s" and ok: "addColumn s = Inr s'" and t: "newColumnType s = ''htmltable''"
  from ok t have v: "\<not> js_less (Number_js (st_tableRows s)) (Num 1)"
    "\<not> js_less (Number_js (st_tableColumns s)) (Num 1)" "\<not> headers_mismatch s"
    "st_tableColumns s \<noteq> []"
    by (simp_all add: addColumn_Inr_iff)
  from reachable_invariant [OF r] v(4)
  have sync: "map cd_name (st_tableColumnDefs s) = st_tableHeaders s"
    and rows: "Number_js (st_tableRows s) \<noteq> NaN"
    by simp_all
  from sync have len: "length (st_tableHeaders s) = length (st_tableColumnDefs s)"
    by (metis length_map)
  from v(3) have n: "Number_js (st_tableColumns s) = Num (of_nat (length (st_tableColumnDefs s)))"
    by (simp add: headers_mismatch_def js_strict_eq_def len)
  with v(2) have one: "1 \<le> length (st_tableColumnDefs s)"
    by (cases "length (st_tableColumnDefs s)") simp_all
  have least: "Number_js (st_tableRows s) = Num 1 \<or> js_less (Num 1) (Number_js (st_tableRows s))"
    using v(1) rows by (cases "Number_js (st_tableRows s)") auto
  from ok t n one least sync show ?thesis
    by (simp add: addColumn_last newColumn_htmltable)
qed

theorem addColumn_htmltable_dimensions_witness:
  "reachable (addTableHeader (initial_state\<lparr>newColumnName := ''T'', newColumnType := ''htmltable'',
      st_tableName := ''t'', st_tableRows := ''2'', st_tableColumns := ''1'',
      currentHeaderInput := ''A''\<rparr>))
   \<and> addColumn (addTableHeader (initial_state\<lparr>newColumnName := ''T'', newColumnType := ''htmltable'',
      st_tableName := ''t'', st_tableRows := ''2'', st_tableColumns := ''1'',
      currentHeaderInput := ''A''\<rparr>))
     = Inr (projr (addColumn (addTableHeader (initial_state\<lparr>newColumnName := ''T'',
         newColumnType := ''htmltable'', st_tableName := ''t'', st_tableRows := ''2'',
         st_tableColumns := ''1'', currentHeaderInput := ''A''\<rparr>))))
   \<and> tableColumns (last (columns (projr (addColumn (addTableHeader (initial_state\<lparr>newColumnName := ''T'',
         newColumnType := ''htmltable'', st_tableName := ''t'', st_tableRows := ''2'',
         st_tableColumns := ''1'', currentHeaderInput := ''A''\<rparr>)))))) = Some (Num 1)
   \<and> tableColumnDefs (last (columns (projr (addColumn (addTableHeader (initial_state\<lparr>newColumnName := ''T'',
         newColumnType := ''htmltable'', st_tableName := ''t'', st_tableRows := ''2'',
         st_tableColumns := ''1'', currentHeaderInput := ''A''\<rparr>))))))
       = Some [\<lparr>cd_name = ''A'', cd_type = ''text'', cd_options = None\<rparr>]
   \<and> tableRows (last (columns (projr (addColumn (addTableHeader (initial_state\<lparr>newColumnName := ''T'',
         newColumnType := ''htmltable'', st_tableName := ''t'', st_tableRows := ''2'',
         st_tableColumns := ''1'', currentHeaderInput := ''A''\<rparr>)))))) = Some (Num 2)
   \<and> tableData (last (columns (projr (addColumn (addTableHeader (initial_state\<lparr>newColumnName := ''T'',
         newColumnType := ''htmltable'', st_tableName := ''t'', st_tableRows := ''2'',
         st_tableColumns := ''1'', currentHeaderInput := ''A''\<rparr>)))))) = Some []"
proof -
  let ?a = "initial_state\<lparr>newColumnName := ''T'', newColumnType := ''htmltable'',
      st_tableName := ''t''\<rparr>"
  let ?d = "initial_state\<lparr>newColumnName := ''T'', newColumnType := ''htmltable'',
      st_tableName := ''t'', st_tableRows := ''2'', st_tableColumns := ''1'',
      currentHeaderInput := ''A''\<rparr>"
  let ?s = "addTableHeader ?d"
  have "reachable ?a"
    by (rule reachable.other [OF reachable.init]) simp_all
  then have "reachable (setTableRows ''2'' ?a)"
    by (rule reachable.rows) (simp add: Number_js_2)
  then have "reachable (setTableColumns_htmltable ''1'' (setTableRows ''2'' ?a))"
    by (rule reachable.columns_htmltable)
  then have "reachable ?d"
    by (rule reachable.other)
      (simp_all add: setTableColumns_htmltable_def setTableRows_def initial_state_def)
  then have r: "reachable ?s"
    by (rule reachable.add_header)
  have s: "?s = initial_state\<lparr>newColumnName := ''T'', newColumnType := ''htmltable'',
      st_tableName := ''t'', st_tableRows := ''2'', st_tableColumns := ''1'',
      st_tableHeaders := [''A''],
      st_tableColumnDefs := [\<lparr>cd_name = ''A'', cd_type = ''text'', cd_options = None\<rparr>]\<rparr>"
    by (simp add: addTableHeader_def Let_def initial_state_def trim_def is_space_def)
  have ok: "addColumn ?s = Inr (projr (addColumn ?s))"
    unfolding s
    by (simp add: addColumn_def initial_state_def trim_Cons_nonspace is_space_def Number_js_1
        Number_js_2 headers_mismatch_def js_strict_eq_def)
  have t: "newColumnType ?s = ''htmltable''"
    unfolding s by simp
  have rows: "tableRows (last (columns (projr (addColumn ?s)))) = Some (Num 2)"
    using addColumn_last [OF ok] newColumn_htmltable [OF t] unfolding s
    by (simp add: Number_js_2)
  have d: "st_tableData ?s = []"
    unfolding s by (simp add: initial_state_def)
  from addColumn_htmltable_dimensions [OF r ok t] show ?thesis
    using ok r rows d unfolding s by simp
qed

theorem addColumn_htmlrender_unchecked_counterexample:
  "\<not> isl (addColumn (initial_state\<lparr>newColumnName := ''T'', newColumnType := ''htmlrender'',
        st_tableRows := ''1'', st_tableColumns := ''2''\<rparr>))
   \<and> ftype (last (columns (projr (addColumn (initial_state\<lparr>newColumnName := ''T'',
        newColumnType := ''htmlrender'', st_tableRows := ''1'', st_tableColumns := ''2''\<rparr>)))))
       = ''htmlrender''
   \<and> tableColumns (last (columns (projr (addColumn (initial_state\<lparr>newColumnName := ''T'',
        newColumnType := ''htmlrender'', st_tableRows := ''1'', st_tableColumns := ''2''\<rparr>)))))
       = Some (Num 2)
   \<and> tableColumnDefs (last (columns (projr (addColumn (initial_state\<lparr>newColumnName := ''T'',
        newColumnType := ''htmlrender'', st_tableRows := ''1'', st_tableColumns := ''2''\<rparr>)))))
       = Some []
   \<and> tableRows (last (columns (projr (addColumn (initial_state\<lparr>newColumnName := ''T'',
        newColumnType := ''htmlrender'', st_tableRows := ''1'', st_tableColumns := ''2''\<rparr>)))))
       = Some (Num 1)
   \<and> tableData (last (columns (projr (addColumn (initial_state\<lparr>newColumnName := ''T'',
        newColumnType := ''htmlrender'', st_tableRows := ''1'', st_tableColumns := ''2''\<rparr>)))))
       = Some []"
proof -
  let ?s = "initial_state\<lparr>newColumnName := ''T'', newColumnType := ''htmlrender'',
        st_tableRows := ''1'', st_tableColumns := ''2''\<rparr>"
  have ok: "addColumn ?s = Inr (projr (addColumn ?s))"
    by (simp add: addColumn_def initial_state_def trim_Cons_nonspace is_space_def)
  have t: "newColumnType ?s = ''htmlrender''"
    by simp
  have c: "columns (projr (addColumn ?s)) = columns ?s @ [newColumn ?s]"
    using ok by (rule addColumn_last)
  have "\<not> isl (addColumn ?s)"
    using ok by (metis sum.disc(2))
  then show ?thesis
    using newColumn_htmlrender [OF t] unfolding c
    by (simp add: initial_state_def Number_js_1 Number_js_2)
qed

text \<open>
  The grid of an \<^verbatim>\<open>htmltable\<close> field is not checked either. The draft is first an
  \<^verbatim>\<open>htmlrender\<close> one with two rows and three columns, which builds a grid of that size;
  the type is then changed to \<^verbatim>\<open>htmltable\<close>, which leaves the grid, one column is asked
  for and named, and the field is accepted with one column and rows of three cells.
\<close>

lemma ToLength_2: "ToLength (Num 2) = 2"
  by (simp add: ToLength_def)

lemma addColumn_htmltable_grid_unchecked:
  "\<not> isl (setTableColumns_htmlrender ''3'' (setTableRows ''2''
        (initial_state\<lparr>newColumnType := ''htmlrender''\<rparr>)))
   \<and> reachable (addTableHeader ((setTableColumns_htmltable ''1''
        ((projr (setTableColumns_htmlrender ''3'' (setTableRows ''2''
           (initial_state\<lparr>newColumnType := ''htmlrender''\<rparr>))))
         \<lparr>newColumnType := ''htmltable'', newColumnName := ''T'', st_tableName := ''t''\<rparr>))
        \<lparr>currentHeaderInput := ''A''\<rparr>))
   \<and> \<not> isl (addColumn (addTableHeader ((setTableColumns_htmltable ''1''
        ((projr (setTableColumns_htmlrender ''3'' (setTableRows ''2''
           (initial_state\<lparr>newColumnType := ''htmlrender''\<rparr>))))
         \<lparr>newColumnType := ''htmltable'', newColumnName := ''T'', st_tableName := ''t''\<rparr>))
        \<lparr>currentHeaderInput := ''A''\<rparr>)))
   \<and> tableColumns (last (columns (projr (addColumn (addTableHeader ((setTableColumns_htmltable ''1''
        ((projr (setTableColumns_htmlrender ''3'' (setTableRows ''2''
           (initial_state\<lparr>newColumnType := ''htmlrender''\<rparr>))))
         \<lparr>newColumnType := ''htmltable'', newColumnName := ''T'', st_tableName := ''t''\<rparr>))
        \<lparr>currentHeaderInput := ''A''\<rparr>)))))) = Some (Num 1)
   \<and> tableData (last (columns (projr (addColumn (addTableHeader ((setTableColumns_htmltable ''1''
        ((projr (setTableColumns_htmlrender ''3'' (setTableRows ''2''
           (initial_state\<lparr>newColumnType := ''htmlrender''\<rparr>))))
         \<lparr>newColumnType := ''htmltable'', newColumnName := ''T'', st_tableName := ''t''\<rparr>))
        \<lparr>currentHeaderInput := ''A''\<rparr>))))))
       = Some [[[], [], []], [[], [], []]]"
proof -
  let ?a = "initial_state\<lparr>newColumnType := ''htmlrender''\<rparr>"
  let ?b = "setTableRows ''2'' ?a"
  let ?c = "projr (setTableColumns_htmlrender ''3'' ?b)"
  let ?d = "?c\<lparr>newColumnType := ''htmltable'', newColumnName := ''T'', st_tableName := ''t''\<rparr>"
  let ?e = "(setTableColumns_htmltable ''1'' ?d)\<lparr>currentHeaderInput := ''A''\<rparr>"
  let ?s = "addTableHeader ?e"
  let ?grid = "[[[], [], []], [[], [], []]] :: string list list"
  have g: "replicate 2 (replicate 3 ([]::string)) = ?grid"
    by (simp add: numeral_3_eq_3 numeral_2_eq_2)
  have c: "setTableColumns_htmlrender ''3'' ?b = Inr (?b\<lparr> st_tableColumns := ''3'',
       currentHeaderType := [], st_tableData := ?grid \<rparr>)"
    by (simp add: setTableColumns_htmlrender_def setTableRows_def initial_state_def Number_js_2
        Number_js_3 Array_from_grid ToLength_2 ToLength_3 g)
  have cs: "?c = ?b\<lparr> st_tableColumns := ''3'', currentHeaderType := [], st_tableData := ?grid \<rparr>"
    by (simp only: c sum.sel)
  have ra: "reachable ?a"
    by (rule reachable.other [OF reachable.init]) simp_all
  then have "reachable ?b"
    by (rule reachable.rows) (simp add: Number_js_2)
  then have "reachable (?b\<lparr> st_tableColumns := ''3'', currentHeaderType := [],
       st_tableData := ?grid \<rparr>)"
    using c by (rule reachable.columns_htmlrender)
  then have "reachable ?c"
    by (simp only: cs)
  then have "reachable ?d"
    by (rule reachable.other) simp_all
  then have "reachable (setTableColumns_htmltable ''1'' ?d)"
    by (rule reachable.columns_htmltable)
  then have "reachable ?e"
    by (rule reachable.other) simp_all
  then have r: "reachable ?s"
    by (rule reachable.add_header)
  have s: "?s = initial_state\<lparr>newColumnName := ''T'', newColumnType := ''htmltable'',
      st_tableName := ''t'', st_tableRows := ''2'', st_tableColumns := ''1'',
      st_tableHeaders := [''A''], st_tableData := ?grid,
      st_tableColumnDefs := [\<lparr>cd_name = ''A'', cd_type = ''text'', cd_options = None\<rparr>]\<rparr>"
    unfolding cs
    by (simp add: addTableHeader_def Let_def setTableColumns_htmltable_def setTableRows_def
        initial_state_def trim_def is_space_def)
  have ok: "addColumn ?s = Inr (projr (addColumn ?s))"
    unfolding s
    by (simp add: addColumn_def initial_state_def trim_Cons_nonspace is_space_def Number_js_1
        Number_js_2 headers_mismatch_def js_strict_eq_def)
  have t: "newColumnType ?s = ''htmltable''"
    unfolding s by simp
  have "tableColumns (last (columns (projr (addColumn ?s)))) = Some (Num 1)"
    "tableData (last (columns (projr (addColumn ?s)))) = Some ?grid"
    using addColumn_last [OF ok] newColumn_htmltable [OF t] unfolding s
    by (simp_all add: Number_js_1)
  moreover have "\<not> isl (addColumn ?s)"
    using ok by (metis sum.disc(2))
  moreover have "\<not> isl (setTableColumns_htmlrender ''3'' ?b)"
    by (simp add: c)
  ultimately show ?thesis
    using r by blast
qed

section \<open>Properties of saving and loading\<close>

subsection \<open>The sort\<close>

lemma is_finite_not_NaN: "is_finite x \<Longrightarrow> x \<noteq> NaN"
  by (auto simp: is_finite_def)

lemma js_less_order_key:
  "a \<noteq> NaN \<Longrightarrow> b \<noteq> NaN \<Longrightarrow> js_less a b \<longleftrightarrow> order_key a < order_key b"
  by (cases a; cases b) (simp_all add: order_key_def)

lemma order_key_inj: "a \<noteq> NaN \<Longrightarrow> b \<noteq> NaN \<Longrightarrow> order_key a = order_key b \<longleftrightarrow> a = b"
  by (cases a; cases b) (simp_all add: order_key_def)

text \<open>On finite numbers the comparator \<^verbatim>\<open>a - b\<close> is positive exactly when \<^verbatim>\<open>b < a\<close>: the
  difference of two binary64 values that differ is at least the least positive one in
  magnitude, and is not rounded to zero.\<close>

lemma comparator_positive:
  "is_finite a \<Longrightarrow> is_finite b \<Longrightarrow> js_less (Num 0) (js_sub a b) \<longleftrightarrow> js_less b a"
proof -
  assume "is_finite a" "is_finite b"
  then obtain p q where a: "a = Num p" "to_binary64 p = Num p" and b: "b = Num q" "to_binary64 q = Num q"
    by (cases a; cases b) (simp_all add: is_finite_def)
  have "js_sub a b = to_binary64 (p - q)"
    by (simp add: a b js_sub_def negate_def)
  then show ?thesis
    using binary64_difference_sign [OF a(2) b(2)] by (simp add: a b)
qed

lemma insert_sorted_insort_key:
  "is_finite (order x) \<Longrightarrow> \<forall>y\<in>set ys. is_finite (order y) \<Longrightarrow>
     insert_sorted compare_order x ys = insort_key (\<lambda>f. order_key (order f)) x ys"
  by (induction ys)
    (auto simp: compare_order_def comparator_positive js_less_order_key is_finite_not_NaN not_le)

lemma sort_js_sort_key:
  "\<forall>y\<in>set xs. is_finite (order y) \<Longrightarrow>
     sort_js compare_order xs = sort_key (\<lambda>f. order_key (order f)) xs"
proof (induction xs)
  case Nil
  then show ?case by (simp add: sort_js_def)
next
  case (Cons x xs)
  then have "sort_js compare_order xs = sort_key (\<lambda>f. order_key (order f)) xs"
    by simp
  moreover have "\<forall>y\<in>set (sort_key (\<lambda>f. order_key (order f)) xs). is_finite (order y)"
    using Cons.prems by simp
  ultimately show ?case
    using Cons.prems by (simp add: sort_js_def insert_sorted_insort_key)
qed

lemma sort_js_sorted:
  assumes "\<forall>y\<in>set xs. is_finite (order y)"
  shows "sorted_wrt (\<lambda>a b. \<not> js_less (order b) (order a)) (sort_js compare_order xs)"
proof -
  let ?k = "\<lambda>f. order_key (order f)"
  have "sorted (map ?k (sort_key ?k xs))"
    by (rule sorted_sort_key)
  then have "sorted_wrt (\<lambda>a b. ?k a \<le> ?k b) (sort_key ?k xs)"
    by (simp add: sorted_map)
  moreover have "\<forall>y\<in>set (sort_key ?k xs). order y \<noteq> NaN"
    using assms by (simp add: is_finite_not_NaN)
  ultimately have "sorted_wrt (\<lambda>a b. \<not> js_less (order b) (order a)) (sort_key ?k xs)"
    by (rule_tac sorted_wrt_mono_rel [rotated]) (auto simp: js_less_order_key not_less)
  then show ?thesis
    using assms by (simp add: sort_js_sort_key)
qed

lemma sort_js_stable:
  assumes "\<forall>y\<in>set xs. is_finite (order y)" and "k \<noteq> NaN"
  shows "filter (\<lambda>f. order f = k) (sort_js compare_order xs) = filter (\<lambda>f. order f = k) xs"
proof -
  let ?k = "\<lambda>f. order_key (order f)"
  have eq: "filter (\<lambda>f. order f = k) ys = filter (\<lambda>f. ?k f = order_key k) ys"
    if "\<forall>y\<in>set ys. is_finite (order y)" for ys
    using that assms(2) by (intro filter_cong) (auto simp: order_key_inj is_finite_not_NaN)
  have "filter (\<lambda>f. ?k f = order_key k) (sort_key ?k xs) = filter (\<lambda>f. ?k f = order_key k) xs"
    by (rule sort_key_stable)
  moreover have "\<forall>y\<in>set (sort_key ?k xs). is_finite (order y)"
    using assms(1) by simp
  ultimately show ?thesis
    using assms(1) by (simp add: sort_js_sort_key eq)
qed

lemma sort_js_mset:
  "\<forall>y\<in>set xs. is_finite (order y) \<Longrightarrow> mset (sort_js compare_order xs) = mset xs"
  by (simp add: sort_js_sort_key)

lemma sort_js_idem:
  assumes "\<forall>y\<in>set xs. is_finite (order y)"
  shows "sort_js compare_order (sort_js compare_order xs) = sort_js compare_order xs"
proof -
  let ?k = "\<lambda>f. order_key (order f)"
  have "\<forall>y\<in>set (sort_key ?k xs). is_finite (order y)"
    using assms by simp
  then have "sort_js compare_order (sort_key ?k xs) = sort_key ?k (sort_key ?k xs)"
    by (rule sort_js_sort_key)
  also have "\<dots> = sort_key ?k xs"
    by (rule sort_key_id_if_sorted) (rule sorted_sort_key)
  finally show ?thesis
    using assms by (simp add: sort_js_sort_key)
qed

text \<open>The sort of a list of images under a map that the comparators agree on.\<close>

lemma set_insert_sorted: "set (insert_sorted cmp x ys) = insert x (set ys)"
  by (induction ys) auto

lemma set_sort_js: "set (sort_js cmp xs) = set xs"
  by (induction xs) (simp_all add: sort_js_def set_insert_sorted)

lemma insert_sorted_map:
  "\<forall>y\<in>set ys. cmp' (h x) (h y) = cmp x y \<Longrightarrow>
     insert_sorted cmp' (h x) (map h ys) = map h (insert_sorted cmp x ys)"
  by (induction ys) simp_all

lemma sort_js_map:
  "\<forall>x\<in>set xs. \<forall>y\<in>set xs. cmp' (h x) (h y) = cmp x y \<Longrightarrow>
     sort_js cmp' (map h xs) = map h (sort_js cmp xs)"
proof (induction xs)
  case Nil
  then show ?case by (simp add: sort_js_def)
next
  case (Cons x xs)
  then have ih: "sort_js cmp' (map h xs) = map h (sort_js cmp xs)"
    by simp
  have "\<forall>y\<in>set (sort_js cmp xs). cmp' (h x) (h y) = cmp x y"
    using Cons.prems by (simp add: set_sort_js)
  then have "insert_sorted cmp' (h x) (map h (sort_js cmp xs))
      = map h (insert_sorted cmp x (sort_js cmp xs))"
    by (rule insert_sorted_map)
  then show ?case
    using ih by (simp add: sort_js_def)
qed

subsection \<open>Reading back what was written\<close>

lemma get_prop_append:
  "get_prop k (JObject (xs @ ys))
     = (if get_prop k (JObject ys) = None then get_prop k (JObject xs)
        else get_prop k (JObject ys))"
  by (auto simp: map_add_def split: option.splits)

lemma get_prop_optional:
  "get_prop k' (JObject (optional k f v)) = (if k' = k then map_option f v else None)"
  by (cases v) (simp_all add: optional_def)

lemma get_prop_Cons:
  "get_prop k' (JObject ((k, x) # xs))
     = (if get_prop k' (JObject xs) = None then (if k' = k then Some x else None)
        else get_prop k' (JObject xs))"
  by (auto simp: map_add_def split: option.splits)

lemma get_prop_Nil: "get_prop k (JObject []) = None"
  by simp

lemmas get_prop_object = get_prop_append get_prop_optional get_prop_Cons get_prop_Nil

lemma get_prop_json_of_ColumnDef:
  "get_prop ''name'' (json_of_ColumnDef d) = Some (JString (cd_name d))"
  "get_prop ''type'' (json_of_ColumnDef d) = Some (JString (cd_type d))"
  "get_prop ''options'' (json_of_ColumnDef d) = map_option json_of_strings (cd_options d)"
  by (auto simp: json_of_ColumnDef_def get_prop_object simp del: get_prop.simps)

lemma get_prop_json_of_ColumnConfig:
  "get_prop ''label'' (json_of_ColumnConfig f) = Some (JString (label f))"
  "get_prop ''internalName'' (json_of_ColumnConfig f) = Some (JString (internalName f))"
  "get_prop ''type'' (json_of_ColumnConfig f) = Some (JString (ftype f))"
  "get_prop ''required'' (json_of_ColumnConfig f) = Some (JBool (required f))"
  "get_prop ''order'' (json_of_ColumnConfig f) = Some (json_of_number (order f))"
  "get_prop ''options'' (json_of_ColumnConfig f) = map_option json_of_strings (options f)"
  "get_prop ''tableName'' (json_of_ColumnConfig f) = map_option JString (tableName f)"
  "get_prop ''tableRows'' (json_of_ColumnConfig f) = map_option json_of_number (tableRows f)"
  "get_prop ''tableColumns'' (json_of_ColumnConfig f) = map_option json_of_number (tableColumns f)"
  "get_prop ''tableHeaders'' (json_of_ColumnConfig f) = map_option json_of_strings (tableHeaders f)"
  "get_prop ''tableColumnDefs'' (json_of_ColumnConfig f)
     = map_option (\<lambda>ds. JArray (map json_of_ColumnDef ds)) (tableColumnDefs f)"
  "get_prop ''tableData'' (json_of_ColumnConfig f)
     = map_option (\<lambda>rows. JArray (map json_of_strings rows)) (tableData f)"
  "get_prop ''htmlContent'' (json_of_ColumnConfig f) = map_option JString (htmlContent f)"
  by (auto simp: json_of_ColumnConfig_def get_prop_object simp del: get_prop.simps)

text \<open>The object written for a field determines the field, as long as its numbers are
  finite: no two fields are written alike, so what is read has the values that were
  saved.\<close>

lemma map_option_inj: "inj h \<Longrightarrow> map_option h a = map_option h b \<Longrightarrow> a = b"
  by (cases a; cases b) (auto dest: injD)

lemma inj_json_of_strings: "inj json_of_strings"
  by (auto simp: inj_def json_of_strings_def dest: map_injective)

lemma inj_json_of_rows: "inj (\<lambda>rows. JArray (map json_of_strings rows))"
  using inj_json_of_strings by (auto simp: inj_def dest: map_injective)

lemma inj_json_of_ColumnDef: "inj json_of_ColumnDef"
proof (rule injI)
  fix d e :: ColumnDef
  assume eq: "json_of_ColumnDef d = json_of_ColumnDef e"
  have "get_prop ''name'' (json_of_ColumnDef d) = get_prop ''name'' (json_of_ColumnDef e)"
    "get_prop ''type'' (json_of_ColumnDef d) = get_prop ''type'' (json_of_ColumnDef e)"
    "get_prop ''options'' (json_of_ColumnDef d) = get_prop ''options'' (json_of_ColumnDef e)"
    by (simp_all only: eq)
  then have "cd_name d = cd_name e" "cd_type d = cd_type e"
    "map_option json_of_strings (cd_options d) = map_option json_of_strings (cd_options e)"
    by (simp_all only: get_prop_json_of_ColumnDef option.inject json.inject)
  then show "d = e"
    using map_option_inj [OF inj_json_of_strings] by (intro ColumnDef.equality) auto
qed

lemma inj_json_of_ColumnDefs: "inj (\<lambda>ds. JArray (map json_of_ColumnDef ds))"
  using inj_json_of_ColumnDef by (auto simp: inj_def dest: map_injective)

lemma json_of_number_inj:
  "is_finite a \<Longrightarrow> is_finite b \<Longrightarrow> json_of_number a = json_of_number b \<Longrightarrow> a = b"
  by (cases a; cases b) (simp_all add: is_finite_def json_of_number_def)

lemma json_of_dimension_inj:
  assumes "case a of None \<Rightarrow> True | Some x \<Rightarrow> is_finite x"
    and "case b of None \<Rightarrow> True | Some x \<Rightarrow> is_finite x"
    and "map_option json_of_number a = map_option json_of_number b"
  shows "a = b"
  using assms by (cases a; cases b) (auto dest: json_of_number_inj)

lemma json_of_ColumnConfig_inj:
  assumes f: "finite_numbers f" and g: "finite_numbers g"
    and eq: "json_of_ColumnConfig f = json_of_ColumnConfig g"
  shows "f = g"
proof -
  have "\<And>k. get_prop k (json_of_ColumnConfig f) = get_prop k (json_of_ColumnConfig g)"
    by (simp only: eq)
  note p = this [of "''label''"] this [of "''internalName''"] this [of "''type''"]
    this [of "''required''"] this [of "''order''"] this [of "''options''"]
    this [of "''tableName''"] this [of "''tableRows''"] this [of "''tableColumns''"]
    this [of "''tableHeaders''"] this [of "''tableColumnDefs''"] this [of "''tableData''"]
    this [of "''htmlContent''"]
  note q = p [unfolded get_prop_json_of_ColumnConfig]
  have 1: "label f = label g" "internalName f = internalName g" "ftype f = ftype g"
    "required f = required g"
    using q(1-4) by simp_all
  have 2: "order f = order g"
    using q(5) f g by (auto simp: finite_numbers_def dest: json_of_number_inj)
  have 3: "options f = options g" "tableHeaders f = tableHeaders g"
    using q(6,10) map_option_inj [OF inj_json_of_strings] by blast+
  have 4: "tableName f = tableName g" "htmlContent f = htmlContent g"
    using q(7,13) map_option_inj [of JString] by (auto simp: inj_def)
  have 5: "tableRows f = tableRows g" "tableColumns f = tableColumns g"
    using q(8,9) f g by (auto simp: finite_numbers_def intro: json_of_dimension_inj)
  have 6: "tableColumnDefs f = tableColumnDefs g"
    using q(11) map_option_inj [OF inj_json_of_ColumnDefs] by blast
  have 7: "tableData f = tableData g"
    using q(12) map_option_inj [OF inj_json_of_rows] by blast
  show ?thesis
    using 1 2 3 4 5 6 7 by (intro ColumnConfig.equality) simp_all
qed

text \<open>The operand the renderer's comparator reads from a written field: its order when
  that is finite, and \<open>0\<close> for the \<^verbatim>\<open>null\<close> that stands for any other.\<close>

lemma order_of_json_of_ColumnConfig:
  "order_of (json_of_ColumnConfig f) = Some (case order f of Num q \<Rightarrow> Num q | _ \<Rightarrow> Num 0)"
proof -
  have "order_of (json_of_ColumnConfig f) = ToNumber (get_prop ''order'' (json_of_ColumnConfig f))"
    by (simp only: json_of_ColumnConfig_def order_of.simps)
  then show ?thesis
    by (cases "order f") (simp_all add: get_prop_json_of_ColumnConfig json_of_number_def)
qed

lemma compare_fields_json_of_ColumnConfig:
  "is_finite (order f) \<Longrightarrow> is_finite (order g) \<Longrightarrow>
     compare_fields (json_of_ColumnConfig f) (json_of_ColumnConfig g) = compare_order f g"
  by (cases "order f"; cases "order g")
    (simp_all add: compare_fields_def compare_order_def order_of_json_of_ColumnConfig
      is_finite_def)

lemma finite_orders_list:
  "\<forall>f\<in>set xs. is_finite (order f) \<Longrightarrow> \<exists>qs. map order xs = map Num qs"
proof (induction xs)
  case Nil
  then show ?case by simp
next
  case (Cons x xs)
  then obtain qs where "map order xs = map Num qs" by auto
  moreover from Cons.prems obtain q where "order x = Num q"
    by (cases "order x") (auto simp: is_finite_def)
  ultimately have "map order (x # xs) = map Num (q # qs)" by simp
  then show ?case by blast
qed

lemma get_prop_fields_finalJson:
  "get_prop ''fields'' (finalJson s) = Some (JArray (map json_of_ColumnConfig (sortedColumns s)))"
  by (simp add: finalJson_def)

text \<open>
  C3. For every schema whose fields have finite numbers (\<^verbatim>\<open>order\<close>, and \<^verbatim>\<open>tableRows\<close> and
  \<^verbatim>\<open>tableColumns\<close> where present), the \<^verbatim>\<open>fields\<close> array of the saved document is the field
  list sorted by \<^verbatim>\<open>order\<close> ascending: its orders are a sorted list of numbers, it is a
  permutation of the builder's fields whatever their insertion order, and fields of equal
  order keep their relative position. Reading the document back (the renderer's own sort
  included) gives exactly that sequence of objects, and the object written for a field
  determines the field: every field is read with the values it was saved with.
\<close>
theorem serialize_sorted_roundtrip:
  assumes fin: "\<forall>f\<in>set (columns s). finite_numbers f"
  shows "get_prop ''fields'' (finalJson s)
           = Some (JArray (map json_of_ColumnConfig (sortedColumns s)))
     \<and> (\<exists>qs. map order (sortedColumns s) = map Num qs \<and> sorted qs)
     \<and> mset (sortedColumns s) = mset (columns s)
     \<and> (\<forall>k. filter (\<lambda>f. order f = k) (sortedColumns s) = filter (\<lambda>f. order f = k) (columns s))
     \<and> sortedFields (Some (finalJson s))
         = Some (Some (map json_of_ColumnConfig (sortedColumns s)))
     \<and> (\<forall>f g. finite_numbers f \<and> finite_numbers g
            \<and> json_of_ColumnConfig f = json_of_ColumnConfig g \<longrightarrow> f = g)"
proof -
  let ?xs = "columns s" and ?ys = "sortedColumns s"
  have ys: "?ys = sort_js compare_order ?xs"
    by (simp add: sortedColumns_def)
  have nn: "\<forall>f\<in>set ?xs. is_finite (order f)"
    using fin by (auto simp: finite_numbers_def)
  have perm: "mset ?ys = mset ?xs"
    unfolding ys using nn by (rule sort_js_mset)
  then have set_eq: "set ?ys = set ?xs"
    by (rule mset_eq_setD)
  have nn': "\<forall>f\<in>set ?ys. is_finite (order f)"
    using nn set_eq by simp
  have sorted_js: "sorted_wrt (\<lambda>a b. \<not> js_less (order b) (order a)) ?ys"
    unfolding ys using nn by (rule sort_js_sorted)
  from nn' obtain qs where qs: "map order ?ys = map Num qs"
    using finite_orders_list [of ?ys] by auto
  from sorted_js have "sorted_wrt (\<lambda>a b. \<not> js_less b a) (map order ?ys)"
    by (simp add: sorted_wrt_map)
  then have "sorted_wrt (\<lambda>a b. \<not> js_less (Num b) (Num a)) qs"
    unfolding qs by (simp add: sorted_wrt_map)
  then have "sorted qs"
    by (simp add: not_less)
  with qs have sorted_part: "\<exists>qs. map order ?ys = map Num qs \<and> sorted qs"
    by blast
  have stable: "filter (\<lambda>f. order f = k) ?ys = filter (\<lambda>f. order f = k) ?xs" for k
  proof (cases "k = NaN")
    case True
    with nn nn' have "filter (\<lambda>f. order f = k) ?ys = []" "filter (\<lambda>f. order f = k) ?xs = []"
      by (auto simp: filter_empty_conv dest: is_finite_not_NaN)
    then show ?thesis by simp
  next
    case False
    with nn show ?thesis
      unfolding ys by (rule sort_js_stable)
  qed
  have objects: "list_all (\<lambda>f. order_of f \<noteq> None) (map json_of_ColumnConfig ?ys)"
    by (simp add: list_all_iff order_of_json_of_ColumnConfig)
  have "sort_js compare_fields (map json_of_ColumnConfig ?ys)
      = map json_of_ColumnConfig (sort_js compare_order ?ys)"
    using nn' by (intro sort_js_map) (simp add: compare_fields_json_of_ColumnConfig)
  also have "sort_js compare_order ?ys = ?ys"
    unfolding ys using nn by (rule sort_js_idem)
  finally have "sort_js compare_fields (map json_of_ColumnConfig ?ys) = map json_of_ColumnConfig ?ys" .
  with objects have rt: "sortedFields (Some (finalJson s)) = Some (Some (map json_of_ColumnConfig ?ys))"
    by (simp add: sortedFields_def get_prop_fields_finalJson del: get_prop.simps)
  have inj: "\<forall>f g. finite_numbers f \<and> finite_numbers g
            \<and> json_of_ColumnConfig f = json_of_ColumnConfig g \<longrightarrow> f = g"
    using json_of_ColumnConfig_inj by blast
  show ?thesis
    using get_prop_fields_finalJson sorted_part perm stable rt inj by blast
qed

lemma is_finite_small: "is_finite (Num 1)" "is_finite (Num 2)"
  by (simp_all add: is_finite_def to_binary64_small)

theorem serialize_sorted_roundtrip_witness:
  "map label (sortedColumns (initial_state\<lparr>columns :=
      [newColumn (initial_state\<lparr>newColumnName := ''B'', st_order := ''2''\<rparr>),
       newColumn (initial_state\<lparr>newColumnName := ''A'', st_order := ''1''\<rparr>)]\<rparr>)) = [''A'', ''B'']
   \<and> sortedFields (Some (finalJson (initial_state\<lparr>columns :=
      [newColumn (initial_state\<lparr>newColumnName := ''B'', st_order := ''2''\<rparr>),
       newColumn (initial_state\<lparr>newColumnName := ''A'', st_order := ''1''\<rparr>)]\<rparr>)))
     = Some (Some (map json_of_ColumnConfig (sortedColumns (initial_state\<lparr>columns :=
      [newColumn (initial_state\<lparr>newColumnName := ''B'', st_order := ''2''\<rparr>),
       newColumn (initial_state\<lparr>newColumnName := ''A'', st_order := ''1''\<rparr>)]\<rparr>))))"
proof -
  let ?b = "newColumn (initial_state\<lparr>newColumnName := ''B'', st_order := ''2''\<rparr>)"
  let ?a = "newColumn (initial_state\<lparr>newColumnName := ''A'', st_order := ''1''\<rparr>)"
  let ?s = "initial_state\<lparr>columns := [?b, ?a]\<rparr>"
  have o: "orderNumber (initial_state\<lparr>newColumnName := ''B'', st_order := ''2''\<rparr>) = Num 2"
    "orderNumber (initial_state\<lparr>newColumnName := ''A'', st_order := ''1''\<rparr>) = Num 1"
    by (simp_all add: orderNumber_def initial_state_def Number_js_1 Number_js_2)
  have t: "tableRows ?b = None" "tableColumns ?b = None" "tableRows ?a = None" "tableColumns ?a = None"
    by (simp_all add: newColumn_def Let_def initial_state_def choice_types_def)
  have fin: "\<forall>f\<in>set (columns ?s). finite_numbers f"
    by (simp add: finite_numbers_def is_finite_small o t)
  have d: "js_sub (Num 2) (Num 1) = Num 1" "js_sub (Num 1) (Num 2) = to_binary64 (- 1)"
    by (simp_all add: js_sub_def negate_def to_binary64_small)
  have "\<not> js_less (Num 0) (to_binary64 (- 1))"
    by (rule to_binary64_not_positive) simp
  then have "sortedColumns ?s = [?a, ?b]"
    by (simp add: sortedColumns_def sort_js_def compare_order_def o d)
  then have "map label (sortedColumns ?s) = [''A'', ''B'']"
    by (simp add: initial_state_def)
  with serialize_sorted_roundtrip [OF fin] show ?thesis
    by blast
qed

text \<open>Outside that domain: a number that is not finite is written \<^verbatim>\<open>null\<close>, which stays
  \<^verbatim>\<open>null\<close> in the object read and counts as \<open>0\<close> in the renderer's comparator.\<close>

lemma json_of_ColumnConfig_order_null:
  "\<not> (\<exists>q. order f = Num q) \<Longrightarrow>
     get_prop ''order'' (json_of_ColumnConfig f) = Some JNull
     \<and> order_of (json_of_ColumnConfig f) = Some (Num 0)"
  by (cases "order f")
    (simp_all add: get_prop_json_of_ColumnConfig order_of_json_of_ColumnConfig json_of_number_def)

section \<open>Properties of the renderer\<close>

lemma column_def_in_range: "c < length ds \<Longrightarrow> column_def ds c = ds ! c"
  by (simp add: column_def_def)

text \<open>
  C8. For a table cell in a column whose definition has type \<^verbatim>\<open>yesno\<close>: in the editable
  table (\<^verbatim>\<open>htmltable\<close>) the value of the cell is \<^verbatim>\<open>"false"\<close> when the entered answer is
  empty, or when there is no entered answer and the stored cell is missing or empty, and
  it is never missing or empty; the input is the check box, unchecked unless the value
  is \<^verbatim>\<open>"true"\<close>. In the read-only table (\<^verbatim>\<open>htmlrender\<close>) the displayed value is
  \<^verbatim>\<open>"false"\<close> when the stored cell is missing or empty, and it is never empty.
\<close>
theorem yesno_cell_defaults_to_false:
  assumes "tableColumnDefs field = Some ds" and "c < length ds" and "cd_type (ds ! c) = ''yesno''"
  shows "(formData (cell_name field r c) = Some []
            \<or> (formData (cell_name field r c) = None \<and> falsy (stored_cell field r c))
          \<longrightarrow> renderCell_val field formData r c = Some ''false'')
     \<and> \<not> falsy (renderCell_val field formData r c)
     \<and> renderCell field formData r c
         = CellYesNo (renderCell_val field formData r c = Some ''true'') (cell_name field r c)
     \<and> (falsy (stored_cell field r c) \<longrightarrow> displayValue field r c = ''false'')
     \<and> displayValue field r c \<noteq> []"
proof -
  have t: "cd_type (column_def (colDefs field) c) = ''yesno''"
    using assms by (simp add: colDefs_def column_def_in_range)
  have t': "cd_type (column_def (or_nil (tableColumnDefs field)) c) = ''yesno''"
    using assms by (simp add: or_nil_def column_def_in_range)
  have 1: "renderCell_val field formData r c = Some ''false''"
    if "formData (cell_name field r c) = Some []
        \<or> (formData (cell_name field r c) = None \<and> falsy (stored_cell field r c))"
    using that t by (auto simp: renderCell_val_def Let_def falsy_def)
  have 2: "\<not> falsy (renderCell_val field formData r c)"
    using t by (auto simp: renderCell_val_def Let_def falsy_def split: option.splits)
  have 3: "renderCell field formData r c
         = CellYesNo (renderCell_val field formData r c = Some ''true'') (cell_name field r c)"
    using t by (simp add: renderCell_def Let_def)
  have 4: "displayValue field r c = ''false''" if "falsy (stored_cell field r c)"
    using that t'
    by (auto simp: displayValue_def Let_def stored_cell_def falsy_def or_nil_def
        split: option.splits if_splits)
  have 5: "displayValue field r c \<noteq> []"
    using t' by (simp add: displayValue_def Let_def)
  show ?thesis
    using 1 2 3 4 5 by blast
qed

theorem yesno_cell_defaults_to_false_witness:
  "renderCell_val (newColumn (addTableHeader (initial_state\<lparr>newColumnName := ''T'',
       newColumnType := ''htmltable'', st_tableName := ''t'', st_tableRows := ''1'',
       st_tableColumns := ''1'', currentHeaderInput := ''Ok'', currentHeaderType := ''yesno''\<rparr>)))
     Map.empty 0 0 = Some ''false''
   \<and> displayValue (newColumn (addTableHeader (initial_state\<lparr>newColumnName := ''T'',
       newColumnType := ''htmltable'', st_tableName := ''t'', st_tableRows := ''1'',
       st_tableColumns := ''1'', currentHeaderInput := ''Ok'', currentHeaderType := ''yesno''\<rparr>)))
     0 0 = ''false''"
proof -
  let ?d = "initial_state\<lparr>newColumnName := ''T'',
       newColumnType := ''htmltable'', st_tableName := ''t'', st_tableRows := ''1'',
       st_tableColumns := ''1'', currentHeaderInput := ''Ok'', currentHeaderType := ''yesno''\<rparr>"
  let ?f = "newColumn (addTableHeader ?d)"
  let ?ds = "[\<lparr>cd_name = ''Ok'', cd_type = ''yesno'', cd_options = None\<rparr>]"
  have s: "addTableHeader ?d = initial_state\<lparr>newColumnName := ''T'',
       newColumnType := ''htmltable'', st_tableName := ''t'', st_tableRows := ''1'',
       st_tableColumns := ''1'', st_tableHeaders := [''Ok''], st_tableColumnDefs := ?ds\<rparr>"
    by (simp add: addTableHeader_def Let_def initial_state_def trim_def is_space_def)
  have t: "newColumnType (addTableHeader ?d) = ''htmltable''"
    unfolding s by simp
  have d: "tableColumnDefs ?f = Some ?ds" and g: "tableData ?f = Some []"
    using newColumn_htmltable [OF t] unfolding s by (simp_all add: initial_state_def)
  have e: "falsy (stored_cell ?f 0 0)"
    by (simp add: stored_cell_def falsy_def g)
  from yesno_cell_defaults_to_false [OF d, of 0 Map.empty 0] e show ?thesis
    by simp
qed

text \<open>
  C9. For a field whose type is none of the field kinds, \<^verbatim>\<open>renderDynamicField\<close> returns
  (it does not throw), the element it returns is \<^verbatim>\<open>null\<close> and it has logged one warning
  that names the type.
\<close>
theorem renderDynamicField_unknown_type:
  "ftype field \<notin> set field_kinds \<Longrightarrow>
     renderDynamicField field formData
       = Inr ([''Unsupported field type: '' @ ftype field], None)"
  by (simp add: renderDynamicField_def field_kinds_def Let_def)

theorem renderDynamicField_unknown_type_witness:
  "renderDynamicField ((newColumn initial_state)\<lparr>ftype := ''unknown''\<rparr>) Map.empty
     = Inr ([''Unsupported field type: unknown''], None)"
  using renderDynamicField_unknown_type [of "(newColumn initial_state)\<lparr>ftype := ''unknown''\<rparr>" Map.empty]
  by (simp add: field_kinds_def)

text \<open>The switch has no case for \<^verbatim>\<open>person\<close>, a kind the builder offers: it is rendered
  like an unknown type.\<close>

lemma renderDynamicField_person:
  "ftype field = ''person'' \<Longrightarrow>
     renderDynamicField field formData = Inr ([''Unsupported field type: person''], None)"
  by (simp add: renderDynamicField_def Let_def)

text \<open>A call that returns an element is a call for one of the other kinds; and only the
  two tables can throw, when a dimension is beyond the length of an array.\<close>

lemma renderDynamicField_element:
  "renderDynamicField field formData = Inr (warnings, Some element) \<Longrightarrow>
     ftype field \<in> set field_kinds \<and> ftype field \<noteq> ''person'' \<and> warnings = []"
  by (auto simp: renderDynamicField_def field_kinds_def Let_def split: if_splits sum.splits)

lemma renderDynamicField_throws:
  "renderDynamicField field formData = Inl e \<Longrightarrow>
     e = RangeError \<and> (ftype field = ''htmltable'' \<or> ftype field = ''htmlrender'')"
  by (cases e) (auto simp: renderDynamicField_def Let_def split: if_splits)

lemma htmltable_control_RangeError:
  "tableColumns field = Some (Num 4294967296) \<Longrightarrow> htmltable_control field formData = Inl RangeError"
  by (simp add: htmltable_control_def Let_def or_zero_def truthy_num_def Array_from_Inr
      ToLength_def)

end
